theory Spec2Isabelle
  imports Complex_Main "HOL-Library.Sublist" "HOL-Library.AList"
begin

section \<open>Python values\<close>

text \<open>
  The integration keeps everything it receives from the server as decoded JSON: nested
  dictionaries, lists, strings and numbers. The values below are what \<^verbatim>\<open>json.loads\<close>
  produces. Dictionaries are association lists in insertion order. A dictionary decoded
  from JSON has string keys only; \<^verbatim>\<open>parse_device_update\<close> can also store under a key
  taken from a list, so keys carry the other hashable values as well. Finite floats are the
  rational they denote.
\<close>

datatype key = KStr string | KInt int | KFloat rat | KNone

datatype json =
    JNull
  | JBool bool
  | JInt int
  | JFloat rat
  | JStr string
  | JList "json list"
  | JObj "(key \<times> json) list"

datatype py_error =
    KeyError
  | IndexError
  | TypeError
  | AttributeError
  | JSONDecodeError
  | RecursionError

text \<open>
  Hashing a value for use as a dictionary key. \<^verbatim>\<open>True == 1\<close> and \<^verbatim>\<open>1.0 == 1\<close> are the
  same key in Python; lists and dictionaries are unhashable (\<^verbatim>\<open>TypeError\<close>).
\<close>

fun to_key :: "json \<Rightarrow> py_error + key" where
  "to_key JNull = Inr KNone"
| "to_key (JBool b) = Inr (KInt (if b then 1 else 0))"
| "to_key (JInt i) = Inr (KInt i)"
| "to_key (JFloat r) = (if of_int \<lfloor>r\<rfloor> = r then Inr (KInt \<lfloor>r\<rfloor>) else Inr (KFloat r))"
| "to_key (JStr s) = Inr (KStr s)"
| "to_key (JList xs) = Inl TypeError"
| "to_key (JObj kvs) = Inl TypeError"

fun of_key :: "key \<Rightarrow> json" where
  "of_key (KStr s) = JStr s"
| "of_key (KInt i) = JInt i"
| "of_key (KFloat r) = JFloat r"
| "of_key KNone = JNull"

text \<open>An integer usable as a sequence index: \<^verbatim>\<open>int\<close>, or \<^verbatim>\<open>bool\<close> (its subclass).\<close>

fun as_index :: "json \<Rightarrow> int option" where
  "as_index (JInt i) = Some i"
| "as_index (JBool b) = Some (if b then 1 else 0)"
| "as_index _ = None"

text \<open>The position an index \<open>i\<close> denotes in a sequence of length \<open>n\<close>: itself when
  \<^verbatim>\<open>0 <= i < n\<close>, counted from the end when \<^verbatim>\<open>-n <= i < 0\<close>, none otherwise.\<close>

definition norm_index :: "nat \<Rightarrow> int \<Rightarrow> nat option" where
  "norm_index n i =
     (if 0 \<le> i \<and> i < int n then Some (nat i)
      else if i < 0 \<and> - int n \<le> i then Some (nat (int n + i))
      else None)"

text \<open>\<^verbatim>\<open>xs[i]\<close> on a sequence; an index that denotes no position raises \<^verbatim>\<open>IndexError\<close>.\<close>

definition seq_index :: "'a list \<Rightarrow> int \<Rightarrow> py_error + 'a" where
  "seq_index xs i =
     (case norm_index (length xs) i of
        None \<Rightarrow> Inl IndexError
      | Some j \<Rightarrow> Inr (xs ! j))"

text \<open>\<^verbatim>\<open>container[k]\<close>.\<close>

fun py_getitem :: "json \<Rightarrow> json \<Rightarrow> py_error + json" where
  "py_getitem (JObj kvs) k =
     (case to_key k of
        Inl e \<Rightarrow> Inl e
      | Inr k' \<Rightarrow> (case map_of kvs k' of None \<Rightarrow> Inl KeyError | Some v \<Rightarrow> Inr v))"
| "py_getitem (JList xs) k =
     (case as_index k of None \<Rightarrow> Inl TypeError | Some i \<Rightarrow> seq_index xs i)"
| "py_getitem (JStr s) k =
     (case as_index k of
        None \<Rightarrow> Inl TypeError
      | Some i \<Rightarrow> (case seq_index s i of Inl e \<Rightarrow> Inl e | Inr c \<Rightarrow> Inr (JStr [c])))"
| "py_getitem _ k = Inl TypeError"

text \<open>\<^verbatim>\<open>obj[k1][k2]...\<close>, evaluated left to right.\<close>

fun py_getpath :: "json \<Rightarrow> json list \<Rightarrow> py_error + json" where
  "py_getpath j [] = Inr j"
| "py_getpath j (k # ks) =
     (case py_getitem j k of Inl e \<Rightarrow> Inl e | Inr v \<Rightarrow> py_getpath v ks)"

text \<open>
  \<^verbatim>\<open>container[k] = v\<close>, returning the container after the store. A dictionary keeps the
  position of a key it already has and appends a new one; a list stores in range only;
  nothing else supports item assignment.
\<close>

fun py_setitem :: "json \<Rightarrow> json \<Rightarrow> json \<Rightarrow> py_error + json" where
  "py_setitem (JObj kvs) k v =
     (case to_key k of
        Inl e \<Rightarrow> Inl e
      | Inr k' \<Rightarrow> Inr (JObj (AList.update k' v kvs)))"
| "py_setitem (JList xs) k v =
     (case as_index k of
        None \<Rightarrow> Inl TypeError
      | Some i \<Rightarrow>
          (case norm_index (length xs) i of
             None \<Rightarrow> Inl IndexError
           | Some j \<Rightarrow> Inr (JList (xs[j := v]))))"
| "py_setitem _ k v = Inl TypeError"

text \<open>
  \<^verbatim>\<open>obj[p1]...[pn][k] = v\<close>. Python mutates the innermost container in place; with values
  instead of references the changed container is stored back along the path. No two
  groups of the device state share a container (each comes out of its own place in a
  decoded message), so the two agree.
\<close>

fun py_setpath :: "json \<Rightarrow> json list \<Rightarrow> json \<Rightarrow> json \<Rightarrow> py_error + json" where
  "py_setpath j [] k v = py_setitem j k v"
| "py_setpath j (p # ps) k v =
     (case py_getitem j p of
        Inl e \<Rightarrow> Inl e
      | Inr c \<Rightarrow>
          (case py_setpath c ps k v of
             Inl e \<Rightarrow> Inl e
           | Inr c' \<Rightarrow> py_setitem j p c'))"

text \<open>The items a \<^verbatim>\<open>for\<close> loop visits: the keys of a dictionary, the elements of a
  list, the characters of a string; nothing else is iterable.\<close>

fun py_iter :: "json \<Rightarrow> py_error + json list" where
  "py_iter (JObj kvs) = Inr (map (of_key \<circ> fst) kvs)"
| "py_iter (JList xs) = Inr xs"
| "py_iter (JStr s) = Inr (map (\<lambda>c. JStr [c]) s)"
| "py_iter _ = Inl TypeError"

text \<open>\<^verbatim>\<open>needle in haystack\<close> on two strings: substring test.\<close>

fun str_contains :: "string \<Rightarrow> string \<Rightarrow> bool" where
  "str_contains p [] = (p = [])"
| "str_contains p (c # cs) = (prefix p (c # cs) \<or> str_contains p cs)"

text \<open>\<^verbatim>\<open>k in container\<close> for a string \<open>k\<close>: key membership in a dictionary, element
  membership in a list, substring in a string, \<^verbatim>\<open>TypeError\<close> on anything else.\<close>

fun py_in :: "string \<Rightarrow> json \<Rightarrow> py_error + bool" where
  "py_in k (JObj kvs) = Inr (map_of kvs (KStr k) \<noteq> None)"
| "py_in k (JList xs) = Inr (List.member xs (JStr k))"
| "py_in k (JStr s) = Inr (str_contains k s)"
| "py_in k _ = Inl TypeError"

text \<open>Truth value of an object in a condition.\<close>

fun py_truthy :: "json \<Rightarrow> bool" where
  "py_truthy JNull = False"
| "py_truthy (JBool b) = b"
| "py_truthy (JInt i) = (i \<noteq> 0)"
| "py_truthy (JFloat r) = (r \<noteq> 0)"
| "py_truthy (JStr s) = (s \<noteq> [])"
| "py_truthy (JList xs) = (xs \<noteq> [])"
| "py_truthy (JObj kvs) = (kvs \<noteq> [])"

text \<open>\<^verbatim>\<open>s.split(c)\<close> for a one-character separator.\<close>

fun split_on :: "char \<Rightarrow> string \<Rightarrow> string list" where
  "split_on c [] = [[]]"
| "split_on c (x # xs) =
     (if x = c then [] # split_on c xs
      else (case split_on c xs of [] \<Rightarrow> [[x]] | w # ws \<Rightarrow> (x # w) # ws))"

text \<open>\<^verbatim>\<open>str(i)\<close> for an integer: its decimal digits, with a sign when negative.\<close>

fun nat_digits :: "nat \<Rightarrow> string" where
  "nat_digits n =
     (if n < 10 then [''0123456789'' ! n]
      else nat_digits (n div 10) @ [''0123456789'' ! (n mod 10)])"

declare nat_digits.simps [simp del]

definition str_int :: "int \<Rightarrow> string" where
  "str_int i = (if i < 0 then CHR ''-'' # nat_digits (nat (- i)) else nat_digits (nat i))"

section \<open>The controller object\<close>

text \<open>
  \<^verbatim>\<open>GdoDevice\<close> extends \<^verbatim>\<open>RyobiWssCtrl\<close>, which extends \<^verbatim>\<open>RyobiApi\<close>; one record
  holds the attributes of all three. The last fields are not attributes of the object:
  \<open>logged\<close> collects the logger calls, \<open>effects\<close> the calls that leave the object (HTTP
  requests, socket operations, subscriber callbacks), and the four counters say how many
  answers of the outside world have been used so far.
\<close>

datatype level = DEBUG | WARNING | ERROR

type_synonym log_entry = "level \<times> string \<times> json list"

datatype effect =
    HttpSend string string
  | WsCreate nat
  | WsSend nat json
  | WsClose nat
  | Notify nat

record ctrl =
  username :: string
  password :: string
  api_key :: json
  user_id :: json
  device_id :: string
  port_id :: json
  socket_state :: string
  subscriber :: "nat list"
  wst :: "nat option"
  ws :: "nat option"
  sent_counter :: int
  garage_state :: json
  logged :: "log_entry list"
  effects :: "effect list"
  n_requests :: nat
  n_threads :: nat
  n_sleeps :: nat
  n_sends :: nat

type_synonym 'a res = "(py_error + 'a) \<times> ctrl"

definition log_msg :: "level \<Rightarrow> string \<Rightarrow> json list \<Rightarrow> ctrl \<Rightarrow> ctrl" where
  "log_msg l fmt args s = s\<lparr>logged := logged s @ [(l, fmt, args)]\<rparr>"

section \<open>Derived accessors (gdodevice.py, cover.py)\<close>

text \<open>
  \<^verbatim>\<open>GdoDevice.current_state\<close>: when the state has a \<^verbatim>\<open>doorState\<close> group, index its
  \<^verbatim>\<open>enum\<close> table with its \<^verbatim>\<open>value\<close>, store the result in the group's \<^verbatim>\<open>state\<close> field
  and return the stored field; otherwise fall off the end of the property (\<^verbatim>\<open>None\<close>).
  The right-hand side of the assignment is evaluated before its target.
\<close>

definition current_state :: "ctrl \<Rightarrow> json res" where
  "current_state s =
     (case py_in ''doorState'' (garage_state s) of
        Inl e \<Rightarrow> (Inl e, s)
      | Inr False \<Rightarrow> (Inr JNull, s)
      | Inr True \<Rightarrow>
          (case py_getpath (garage_state s) [JStr ''doorState'', JStr ''enum''] of
             Inl e \<Rightarrow> (Inl e, s)
           | Inr en \<Rightarrow>
          (case py_getpath (garage_state s) [JStr ''doorState'', JStr ''value''] of
             Inl e \<Rightarrow> (Inl e, s)
           | Inr v \<Rightarrow>
          (case py_getitem en v of
             Inl e \<Rightarrow> (Inl e, s)
           | Inr st \<Rightarrow>
          (case py_setpath (garage_state s) [JStr ''doorState''] (JStr ''state'') st of
             Inl e \<Rightarrow> (Inl e, s)
           | Inr gs' \<Rightarrow>
               (py_getpath gs' [JStr ''doorState'', JStr ''state''],
                s\<lparr>garage_state := gs'\<rparr>))))))"

text \<open>
  \<^verbatim>\<open>RyobiGarageDoor.current_cover_position\<close> (cover.py). The property
  \<^verbatim>\<open>current_state\<close> is read once for the first comparison and again for the second.
\<close>

definition current_cover_position :: "ctrl \<Rightarrow> json res" where
  "current_cover_position s =
     (case current_state s of
        (Inl e, s1) \<Rightarrow> (Inl e, s1)
      | (Inr st1, s1) \<Rightarrow>
          if st1 = JStr ''Closed'' then (Inr (JInt (- 1)), s1)
          else
            (case current_state s1 of
               (Inl e, s2) \<Rightarrow> (Inl e, s2)
             | (Inr st2, s2) \<Rightarrow>
                 if st2 = JStr ''Open'' then (Inr (JInt 100), s2)
                 else (py_getpath (garage_state s2) [JStr ''doorPosition'', JStr ''value''], s2)))"

section \<open>Constants (ryobiapi.py)\<close>

definition SOCK_CONNECTED :: string where [simp]: "SOCK_CONNECTED = ''Open''"
definition SOCK_CLOSE :: string where [simp]: "SOCK_CLOSE = ''Close''"
definition SOCK_ERROR :: string where [simp]: "SOCK_ERROR = ''Error''"

definition GARAGE_UPDATE_MSG :: string where [simp]: "GARAGE_UPDATE_MSG = ''wskAttributeUpdateNtfy''"
definition WS_AUTH_OK :: string where [simp]: "WS_AUTH_OK = ''authorizedWebSocket''"
definition WS_CMD_ACK :: string where [simp]: "WS_CMD_ACK = ''result''"
definition WS_OK :: string where [simp]: "WS_OK = ''OK''"

definition RYOBI_URL :: string where [simp]: "RYOBI_URL = ''tti.tiwiconnect.com''"
definition HTTP_ENDPOINT :: string where [simp]: "HTTP_ENDPOINT = ''https://'' @ RYOBI_URL @ ''/api''"
definition WS_ENDPOINT :: string where [simp]: "WS_ENDPOINT = ''wss://'' @ RYOBI_URL @ ''/api/wsrpc''"
definition N_RETRY :: nat where "N_RETRY = 5"
definition WS_RETRY :: nat where "WS_RETRY = 10"

section \<open>Notification fan-out and merge engine (ryobiapi.py)\<close>

text \<open>\<^verbatim>\<open>subscribe\<close> appends a callback. A callback is a handle here; calling it is the
  effect \<open>Notify\<close>. The one callback the repository registers (cover.py) schedules a
  state refresh of the entity and hands nothing back to the controller.\<close>

definition subscribe :: "nat \<Rightarrow> ctrl \<Rightarrow> ctrl" where
  "subscribe cb s =
     (log_msg DEBUG ''RyobiApi (WSS): adding a new subscriber'' [] s)
       \<lparr>subscriber := subscriber s @ [cb]\<rparr>"

definition call_subscriber :: "ctrl \<Rightarrow> ctrl" where
  "call_subscriber s =
     (log_msg DEBUG ''RyobiApi (WSS): Calling subscriber (schedule_update_ha_state)'' [] s)
       \<lparr>effects := effects s @ map Notify (subscriber s)\<rparr>"

text \<open>
  The inner loops of \<^verbatim>\<open>parse_device_update\<close>:
  \<^verbatim>\<open>for item in update[key]: self.garage_state[...][item] = update[key][item]\<close>, with
  \<open>path\<close> the subscripts before \<^verbatim>\<open>[item]\<close>, \<open>src\<close> the value of \<^verbatim>\<open>update[key]\<close> and
  \<open>items\<close> what is left to visit. A raise leaves the stores made so far in place.
\<close>

fun store_items :: "json list \<Rightarrow> json \<Rightarrow> json list \<Rightarrow> ctrl \<Rightarrow> unit res" where
  "store_items path src [] s = (Inr (), s)"
| "store_items path src (item # items) s =
     (case py_getitem src item of
        Inl e \<Rightarrow> (Inl e, s)
      | Inr v \<Rightarrow>
          (case py_setpath (garage_state s) path item v of
             Inl e \<Rightarrow> (Inl e, s)
           | Inr gs' \<Rightarrow> store_items path src items (s\<lparr>garage_state := gs'\<rparr>)))"

definition store_group :: "json list \<Rightarrow> json \<Rightarrow> ctrl \<Rightarrow> unit res" where
  "store_group path src s =
     (case py_iter src of
        Inl e \<Rightarrow> (Inl e, s)
      | Inr items \<Rightarrow> store_items path src items s)"

text \<open>\<^verbatim>\<open>key.split(".")[1]\<close>.\<close>

definition module_name_of :: "string \<Rightarrow> py_error + string" where
  "module_name_of k =
     (case split_on (CHR ''.'') k of
        _ # m # _ \<Rightarrow> Inr m
      | _ \<Rightarrow> Inl IndexError)"

text \<open>The outer loop \<^verbatim>\<open>for key in list(update.keys())\<close> over the entries \<open>kvs\<close> of the
  update; a key that is not a string has no \<^verbatim>\<open>split\<close>.\<close>

fun parse_keys :: "(key \<times> json) list \<Rightarrow> key list \<Rightarrow> ctrl \<Rightarrow> unit res" where
  "parse_keys kvs [] s = (Inr (), s)"
| "parse_keys kvs (key # keys) s =
     (if key = KStr ''topic'' \<or> key = KStr ''varName'' \<or> key = KStr ''id''
      then parse_keys kvs keys s
      else
        (case map_of kvs key of
           None \<Rightarrow> (Inl KeyError, s)
         | Some flds \<Rightarrow>
             (let s1 = log_msg DEBUG ''RyobiApi (WSS) parse update each item in %s: %s''
                         [of_key key, flds] s
              in case key of
                   KStr k \<Rightarrow>
                     (case module_name_of k of
                        Inl e \<Rightarrow> (Inl e, s1)
                      | Inr m \<Rightarrow>
                          if str_contains ''garageDoor'' k then
                            (case store_group [JStr m] flds s1 of
                               (Inl e, s2) \<Rightarrow> (Inl e, s2)
                             | (Inr _, s2) \<Rightarrow> parse_keys kvs keys s2)
                          else if str_contains ''garageLight'' k then
                            (case store_group [JStr ''garageLight'', JStr m] flds s1 of
                               (Inl e, s2) \<Rightarrow> (Inl e, s2)
                             | (Inr _, s2) \<Rightarrow> parse_keys kvs keys s2)
                          else
                            parse_keys kvs keys
                              (log_msg ERROR
                                 ''RyobiApi (WSS) parse update: Did not recognized module: %s''
                                 [JStr k] s1))
                 | _ \<Rightarrow> (Inl AttributeError, s1))))"

definition parse_device_update :: "json \<Rightarrow> ctrl \<Rightarrow> unit res" where
  "parse_device_update update s =
     (case py_getitem update (JStr ''varName'') of
        Inl e \<Rightarrow> (Inl e, s)
      | Inr v \<Rightarrow>
          if JStr (device_id s) \<noteq> v then
            (Inr (),
             log_msg DEBUG
               ''RyobiApi (WSS): Recieved update for a differnt device! (%s but I am %s)''
               [v, JStr (device_id s)] s)
          else
            (case update of
               JObj kvs \<Rightarrow> parse_keys kvs (map fst kvs) s
             | _ \<Rightarrow> (Inl AttributeError, s)))"

section \<open>Inbound frames (ryobiapi.py)\<close>

text \<open>
  \<^verbatim>\<open>on_message(ws, msg)\<close>. The text frame is given by what \<^verbatim>\<open>json.loads\<close> makes of it:
  \<open>Some\<close> of the decoded value, or \<open>None\<close> when the text is not JSON and the decoder
  raises. The socket argument is not used by the handler. The bodies of the three
  recognised shapes come first: the update notification, the authorisation
  acknowledgement and the command result; \<^verbatim>\<open>message["method"]\<close>, read again by the
  \<^verbatim>\<open>elif\<close>, has the value of the first read.
\<close>

definition on_update_ntfy :: "json \<Rightarrow> ctrl \<Rightarrow> unit res" where
  "on_update_ntfy message s =
     (let s2 = log_msg DEBUG ''RyobiApi (WSS) recieved garage door update message. '' [] s
      in case py_in ''params'' message of
           Inl e \<Rightarrow> (Inl e, s2)
         | Inr False \<Rightarrow> (Inr (), s2)
         | Inr True \<Rightarrow>
             (case py_getitem message (JStr ''params'') of
                Inl e \<Rightarrow> (Inl e, s2)
              | Inr params \<Rightarrow>
                  (case parse_device_update params s2 of
                     (Inl e, s3) \<Rightarrow> (Inl e, s3)
                   | (Inr _, s3) \<Rightarrow> (Inr (), call_subscriber s3))))"

definition on_auth_ok :: "json \<Rightarrow> ctrl \<Rightarrow> unit res" where
  "on_auth_ok message s =
     (case py_getpath message [JStr ''params'', JStr ''authorized''] of
        Inl e \<Rightarrow> (Inl e, s)
      | Inr a \<Rightarrow>
          if py_truthy a then
            (Inr (), log_msg DEBUG ''RyobiApi (WSS) Msg: Api Key? authorization OK. '' [] s)
          else
            (Inr (),
             log_msg ERROR
               ''RyobiApi (WSS) Msg: Api Key? not authorized based on response form server. ''
               [] s))"

definition on_cmd_ack :: "json \<Rightarrow> ctrl \<Rightarrow> unit res" where
  "on_cmd_ack message s =
     (case py_getitem message (JStr ''result'') of
        Inl e \<Rightarrow> (Inl e, s)
      | Inr r \<Rightarrow>
     (case py_in ''result'' r of
        Inl e \<Rightarrow> (Inl e, s)
      | Inr has_result \<Rightarrow>
     (case (if has_result then
              (case py_getpath message [JStr WS_CMD_ACK, JStr ''result''] of
                 Inl e \<Rightarrow> Inl e
               | Inr x \<Rightarrow>
                   Inr (if x = JStr WS_OK then
                          log_msg DEBUG
                            ''RyobiApi (WSS) Msg: Recieved OK result from server. '' [] s
                        else s))
            else Inr s) of
        Inl e \<Rightarrow> (Inl e, s)
      | Inr s2 \<Rightarrow>
     (case py_getitem message (JStr WS_CMD_ACK) of
        Inl e \<Rightarrow> (Inl e, s2)
      | Inr r2 \<Rightarrow>
     (case py_in ''authorized'' r2 of
        Inl e \<Rightarrow> (Inl e, s2)
      | Inr False \<Rightarrow> (Inr (), s2)
      | Inr True \<Rightarrow>
          (case py_getpath message [JStr WS_CMD_ACK, JStr ''authorized''] of
             Inl e \<Rightarrow> (Inl e, s2)
           | Inr a \<Rightarrow>
               (Inr (),
                if py_truthy a then
                  log_msg DEBUG ''RyobiApi (WSS) Msg: User? authorization OK. '' [] s2
                else s2)))))))"

definition on_message :: "json option \<Rightarrow> ctrl \<Rightarrow> unit res" where
  "on_message msg s0 =
     (let s1 = s0\<lparr>sent_counter := 0\<rparr> in
      case msg of
        None \<Rightarrow> (Inl JSONDecodeError, s1)
      | Some message \<Rightarrow>
          (let s = log_msg DEBUG ''RyobiApi (WSS) Msg received %s'' [message] s1 in
           case py_in ''method'' message of
             Inl e \<Rightarrow> (Inl e, s)
           | Inr True \<Rightarrow>
               (case py_getitem message (JStr ''method'') of
                  Inl e \<Rightarrow> (Inl e, s)
                | Inr m \<Rightarrow>
                    if m = JStr GARAGE_UPDATE_MSG then on_update_ntfy message s
                    else if m = JStr WS_AUTH_OK then on_auth_ok message s
                    else (Inr (), s))
           | Inr False \<Rightarrow>
               (case py_in ''result'' message of
                  Inl e \<Rightarrow> (Inl e, s)
                | Inr True \<Rightarrow> on_cmd_ack message s
                | Inr False \<Rightarrow>
                    (Inr (),
                     log_msg ERROR
                       ''RyobiApi (WSS) Received an unknown message from server: %s}''
                       [message] s))))"

section \<open>The outside world\<close>

text \<open>
  What the servers and the connection thread do is not decided by the program. It is given
  as four tables, each read at the position of its counter in the controller record:
  the outcome of the n-th HTTP request, of the n-th creation of a socket and start of its
  thread, the socket callbacks that run during the n-th \<^verbatim>\<open>asyncio.sleep\<close>, and the
  outcome of the n-th \<^verbatim>\<open>ws.send\<close>. The callbacks run on the connection thread; here
  they are delivered while the caller sleeps. An HTTP response carries its status code
  and what \<^verbatim>\<open>resp.json()\<close> gives (\<open>None\<close>: the body is not JSON and decoding raises).
  A close callback carries the status code and the message of the close frame, an error
  callback the text that \<^verbatim>\<open>str\<close> gives for the exception; \<open>None\<close> is Python's
  \<^verbatim>\<open>None\<close> in all three.
\<close>

datatype http_outcome = Response int "json option" | RequestError

datatype start_outcome = Alive | Dead | WebSocketException

datatype callback = OnOpen | OnClose "int option" "string option" | OnError "string option"

datatype send_outcome = SendOk | WebSocketConnectionClosedException

record env =
  http_response :: "nat \<Rightarrow> http_outcome"
  thread_start :: "nat \<Rightarrow> start_outcome"
  callbacks :: "nat \<Rightarrow> callback list"
  send_result :: "nat \<Rightarrow> send_outcome"

section \<open>HTTP client (ryobiapi.py)\<close>

text \<open>The loop \<^verbatim>\<open>for attempt in range(N_RETRY)\<close> of \<^verbatim>\<open>send_http\<close>, over the attempts
  left. Only \<^verbatim>\<open>httpx.RequestError\<close> is caught.\<close>

fun send_http_attempts :: "env \<Rightarrow> string \<Rightarrow> string \<Rightarrow> nat list \<Rightarrow> ctrl \<Rightarrow> json res" where
  "send_http_attempts env url method [] s =
     (Inr (JObj [(KStr ''msg'', JStr ''error''),
                 (KStr ''details'', JStr ''Failed after 5 retry'')]),
      log_msg ERROR ''RyobiApi: HTTP error after %s retry'' [JInt (int N_RETRY)] s)"
| "send_http_attempts env url method (attempt # rest) s =
     (let s1 = s\<lparr>effects := effects s @ [HttpSend method url],
                  n_requests := Suc (n_requests s)\<rparr>
      in case http_response env (n_requests s) of
           RequestError \<Rightarrow>
             send_http_attempts env url method rest
               (log_msg DEBUG ''Send HTTP exception details=%s retry... (%s/%s)''
                  [JStr ''RequestError'', JInt (int attempt), JInt (int N_RETRY)] s1)
         | Response status_code body \<Rightarrow>
             if status_code = 200 then
               (let s2 = log_msg DEBUG ''RyobiApi: Send HTTP OK, return=200'' [] s1
                in case body of
                     None \<Rightarrow> (Inl JSONDecodeError, s2)
                   | Some j \<Rightarrow>
                       (Inr j, log_msg DEBUG ''RyobiApi: HTTP data received = %s'' [j] s2))
             else if status_code = 401 then
               (Inr (JObj [(KStr ''msg'', JStr ''error''),
                           (KStr ''details'',
                            JStr ''Invalid login credentials HTTP 401 Unothorized. Skipped retry'')]),
                log_msg ERROR
                  ''RyobiApi: Invlaid login credentials. HTTP 401 Unauthorized. Skipping retry''
                  [] s1)
             else
               send_http_attempts env url method rest
                 (log_msg WARNING
                    ''RyobiApi: Bad server response (status code=%s) retry... (%s/%s)''
                    [JInt status_code, JInt (int attempt), JInt (int N_RETRY)] s1))"

definition send_http :: "env \<Rightarrow> string \<Rightarrow> json \<Rightarrow> json \<Rightarrow> string \<Rightarrow> ctrl \<Rightarrow> json res" where
  "send_http env url params headers method s =
     send_http_attempts env url method [0..<N_RETRY]
       (log_msg DEBUG ''Send HTTP request Url=%s Params=%s'' [JStr url, params] s)"

definition login :: "env \<Rightarrow> string \<Rightarrow> ctrl \<Rightarrow> bool res" where
  "login env url s0 =
     (let s = log_msg DEBUG ''RyobiApi try login'' [] s0;
          params = JObj [(KStr ''username'', JStr (username s)),
                         (KStr ''password'', JStr (password s))];
          headers = JObj [(KStr ''host'', JStr RYOBI_URL),
                          (KStr ''content-type'', JStr ''application/json'')]
      in case send_http env url params headers ''POST'' s of
           (Inl e, s1) \<Rightarrow> (Inl e, s1)
         | (Inr resp, s1) \<Rightarrow>
        (case py_getitem resp (JStr ''result'') of
           Inl e \<Rightarrow> (Inl e, s1)
         | Inr r \<Rightarrow>
        (case py_in ''_id'' r of
           Inl e \<Rightarrow> (Inl e, s1)
         | Inr False \<Rightarrow>
             (Inr False,
              log_msg ERROR
                ''RyobiApi: Something went wrong with login, no user id found. See server response: %s''
                [resp] s1)
         | Inr True \<Rightarrow>
        (case py_getpath resp [JStr ''result'', JStr ''_id''] of
           Inl e \<Rightarrow> (Inl e, s1)
         | Inr uid \<Rightarrow>
        (let s2 = s1\<lparr>user_id := uid\<rparr>
         in case py_getpath resp [JStr ''result'', JStr ''auth''] of
              Inl e \<Rightarrow> (Inl e, s2)
            | Inr auth \<Rightarrow>
        (case py_in ''apiKey'' auth of
           Inl e \<Rightarrow> (Inl e, s2)
         | Inr False \<Rightarrow>
             (Inr False,
              log_msg ERROR ''RyobiApi: Could not get Api Key from server response: %s''
                [resp] s2)
         | Inr True \<Rightarrow>
        (case py_getpath resp [JStr ''result'', JStr ''auth'', JStr ''apiKey''] of
           Inl e \<Rightarrow> (Inl e, s2)
         | Inr k \<Rightarrow>
             (Inr True,
              log_msg DEBUG ''RyobiApi: Login successful. Id and Api Key retrieved'' []
                (s2\<lparr>api_key := k\<rparr>)))))))))"

definition login_url :: string where
  "login_url = HTTP_ENDPOINT @ ''/login''"

section \<open>WebSocket controller (ryobiapi.py)\<close>

definition check_credentials :: "env \<Rightarrow> ctrl \<Rightarrow> bool res" where
  "check_credentials env s0 =
     (let s = log_msg DEBUG ''RyobiApi (WSS) Checking credentials'' [] s0
      in if \<not> py_truthy (api_key s) then
           (case login env login_url (log_msg DEBUG ''RyobiApi (WSS) api key needed'' [] s) of
              (Inl e, s1) \<Rightarrow> (Inl e, s1)
            | (Inr ok, s1) \<Rightarrow> (Inr ok, s1))
         else (Inr True, log_msg DEBUG ''RyobiApi (WSS) api_key are OK'' [] s))"

text \<open>
  \<^verbatim>\<open>open_wss_thread\<close>. The socket and thread objects are named by the number of the
  creation. A \<^verbatim>\<open>WebSocketException\<close> comes out of the constructor, before \<^verbatim>\<open>self.ws\<close>
  is assigned.
\<close>

definition open_wss_thread :: "env \<Rightarrow> ctrl \<Rightarrow> bool res" where
  "open_wss_thread env s =
     (case check_credentials env s of
        (Inl e, s1) \<Rightarrow> (Inl e, s1)
      | (Inr False, s1) \<Rightarrow>
          (Inr False, log_msg ERROR ''RyobiApi (WSS) Failed to obtain WSS Api Key'' [] s1)
      | (Inr True, s1) \<Rightarrow>
          (let s2 = log_msg DEBUG ''RyobiApi (WSS) Addr=%s / Api Key=%s''
                      [JStr WS_ENDPOINT, api_key s1] s1;
               n = n_threads s2;
               s3 = s2\<lparr>n_threads := Suc n\<rparr>
           in case thread_start env n of
                WebSocketException \<Rightarrow>
                  (Inr False,
                   log_msg DEBUG ''RyobiApi (WSS) Error while opening socket: %s''
                     [JStr ''WebSocketException''] (s3\<lparr>socket_state := SOCK_ERROR\<rparr>))
              | Alive \<Rightarrow>
                  (Inr True,
                   log_msg DEBUG ''RyobiApi (WSS) Thread was init'' []
                     (s3\<lparr>ws := Some n, wst := Some n,
                         effects := effects s3 @ [WsCreate n]\<rparr>))
              | Dead \<Rightarrow>
                  (Inr False,
                   log_msg ERROR ''RyobiApi (WSS) Thread connection init has FAILED'' []
                     (s3\<lparr>ws := Some n, wst := Some n,
                         effects := effects s3 @ [WsCreate n]\<rparr>))))"

text \<open>The socket callbacks, with the strings that \<^verbatim>\<open>on_error\<close> and \<^verbatim>\<open>on_close\<close> format
  for the log.\<close>

definition on_error :: "string option \<Rightarrow> ctrl \<Rightarrow> ctrl" where
  "on_error error s =
     (let details = (case error of
                       None \<Rightarrow> []
                     | Some txt \<Rightarrow> ''(details : '' @ txt @ '')'')
      in (log_msg DEBUG ''RyobiApi (WSS) Error: %s'' [JStr details] s)
           \<lparr>socket_state := SOCK_ERROR\<rparr>)"

definition str_opt_int :: "int option \<Rightarrow> string" where
  "str_opt_int c = (case c of None \<Rightarrow> ''None'' | Some i \<Rightarrow> str_int i)"

definition str_opt_str :: "string option \<Rightarrow> string" where
  "str_opt_str m = (case m of None \<Rightarrow> ''None'' | Some txt \<Rightarrow> txt)"

definition on_close :: "int option \<Rightarrow> string option \<Rightarrow> ctrl \<Rightarrow> ctrl" where
  "on_close close_status_code close_msg s =
     (let s1 = log_msg DEBUG ''RyobiApi (WSS) Closed'' [] s;
          s2 = (if (close_status_code \<noteq> None \<and> close_status_code \<noteq> Some 0) \<or>
                   (close_msg \<noteq> None \<and> close_msg \<noteq> Some [])
                then
                  log_msg DEBUG ''RyobiApi (WSS) Close Message: %s''
                    [JStr (str_opt_str close_msg)]
                    (log_msg DEBUG ''RyobiApi (WSS) Close Status_code: %s''
                       [JStr (str_opt_int close_status_code)] s1)
                else s1)
      in s2\<lparr>socket_state := SOCK_CLOSE\<rparr>)"

definition on_open :: "ctrl \<Rightarrow> ctrl" where
  "on_open s =
     (log_msg DEBUG ''RyobiApi (WSS) Connection established OK'' [] s)
       \<lparr>socket_state := SOCK_CONNECTED\<rparr>"

fun run_callback :: "callback \<Rightarrow> ctrl \<Rightarrow> ctrl" where
  "run_callback OnOpen s = on_open s"
| "run_callback (OnClose code msg) s = on_close code msg s"
| "run_callback (OnError err) s = on_error err s"

text \<open>\<^verbatim>\<open>await asyncio.sleep(0.5)\<close>: the callbacks of this sleep run in order.\<close>

definition sleep :: "env \<Rightarrow> ctrl \<Rightarrow> ctrl" where
  "sleep env s =
     fold run_callback (callbacks env (n_sleeps s)) (s\<lparr>n_sleeps := Suc (n_sleeps s)\<rparr>)"

definition auth_frame :: "ctrl \<Rightarrow> json" where
  "auth_frame s =
     JObj [(KStr ''jsonrpc'', JStr ''2.0''), (KStr ''id'', JInt 3),
           (KStr ''method'', JStr ''srvWebSocketAuth''),
           (KStr ''params'', JObj [(KStr ''varName'', JStr (username s)),
                                   (KStr ''apiKey'', api_key s)])]"

definition subscribe_frame :: "string \<Rightarrow> json" where
  "subscribe_frame d_id =
     JObj [(KStr ''jsonrpc'', JStr ''2.0''), (KStr ''id'', JInt 3),
           (KStr ''method'', JStr ''wskSubscribe''),
           (KStr ''params'',
            JObj [(KStr ''topic'', JStr (d_id @ ''.wskAttributeUpdateNtfy''))])]"

text \<open>
  \<^verbatim>\<open>publish_wss\<close> reconnects through \<^verbatim>\<open>connect_wss\<close>, which publishes the
  authentication and subscription frames through \<^verbatim>\<open>publish_wss\<close>. The first argument
  bounds how deep these calls may nest; at depth \<open>0\<close> a call raises \<^verbatim>\<open>RecursionError\<close>,
  as the interpreter does when its stack is used up. \<open>publish_attempts\<close> and
  \<open>connect_poll\<close> are the loops \<^verbatim>\<open>for attempt in range(N_RETRY)\<close> and
  \<^verbatim>\<open>for i in range(WS_RETRY)\<close>, over the iterations left. The payload is the dictionary
  handed to \<^verbatim>\<open>json.dumps\<close>.
\<close>

function publish_wss :: "nat \<Rightarrow> env \<Rightarrow> json \<Rightarrow> ctrl \<Rightarrow> bool res"
  and publish_attempts :: "nat \<Rightarrow> env \<Rightarrow> json \<Rightarrow> nat list \<Rightarrow> ctrl \<Rightarrow> bool res"
  and connect_wss :: "nat \<Rightarrow> env \<Rightarrow> ctrl \<Rightarrow> bool res"
  and connect_poll :: "nat \<Rightarrow> env \<Rightarrow> nat list \<Rightarrow> ctrl \<Rightarrow> bool res"
  and authenticate_with_server :: "nat \<Rightarrow> env \<Rightarrow> ctrl \<Rightarrow> unit res"
  and subscribe_to_notifications :: "nat \<Rightarrow> env \<Rightarrow> string \<Rightarrow> ctrl \<Rightarrow> bool res"
where
  "publish_wss 0 env dict_message s = (Inl RecursionError, s)"
| "publish_wss (Suc d) env dict_message s =
     (let s1 = log_msg DEBUG ''RyobiApi (WSS) Publishing message : %s'' [dict_message] s
      in if sent_counter s1 \<ge> 5 then
           (let s2 = (log_msg WARNING
                        ''RyobiApi (WSS) Link is UP, but server has stopped answering request. ''
                        [] s1)\<lparr>sent_counter := 0\<rparr>
            in case ws s2 of
                 None \<Rightarrow> (Inl AttributeError, s2)
               | Some w \<Rightarrow>
                   publish_attempts d env dict_message [0..<N_RETRY]
                     (s2\<lparr>effects := effects s2 @ [WsClose w], socket_state := SOCK_CLOSE\<rparr>))
         else publish_attempts d env dict_message [0..<N_RETRY] s1)"
| "publish_attempts d env dict_message [] s =
     (Inr False,
      log_msg ERROR ''RyobiApi (WSS) Failed to puslish message after %s retry. ''
        [JInt (int N_RETRY)] s)"
| "publish_attempts d env dict_message (attempt # rest) s =
     (if socket_state s = SOCK_CONNECTED then
        (case ws s of
           None \<Rightarrow> (Inl AttributeError, s)
         | Some w \<Rightarrow>
             (let s1 = s\<lparr>n_sends := Suc (n_sends s)\<rparr>
              in case send_result env (n_sends s) of
                   SendOk \<Rightarrow>
                     (Inr True,
                      log_msg DEBUG ''RyobiApi (WSS) Msg published OK (%s)'' [JInt (int attempt)]
                        (s1\<lparr>effects := effects s1 @ [WsSend w dict_message],
                            sent_counter := sent_counter s1 + 1\<rparr>))
                 | WebSocketConnectionClosedException \<Rightarrow>
                     publish_attempts d env dict_message rest
                       (log_msg DEBUG
                          ''RyobiApi (WSS) Error while publishing message (details: %s)''
                          [JStr ''WebSocketConnectionClosedException'']
                          (s1\<lparr>socket_state := SOCK_CLOSE\<rparr>))))
      else
        (case connect_wss d env
                (log_msg DEBUG
                   ''RyobiApi (WSS) Can't publish message socket_state= %s, reconnecting... ''
                   [JStr (socket_state s)] s) of
           (Inl e, s1) \<Rightarrow> (Inl e, s1)
         | (Inr _, s1) \<Rightarrow> publish_attempts d env dict_message rest s1))"
| "connect_wss 0 env s = (Inl RecursionError, s)"
| "connect_wss (Suc d) env s =
     (if socket_state s = SOCK_CONNECTED then
        (Inr True, log_msg DEBUG ''RyobiApi (WSS) Already connected... '' [] s)
      else
        (case open_wss_thread env
                (log_msg DEBUG ''RyobiApi (WSS) Not connected, connecting'' [] s) of
           (Inl e, s1) \<Rightarrow> (Inl e, s1)
         | (Inr False, s1) \<Rightarrow> (Inr False, s1)
         | (Inr True, s1) \<Rightarrow>
             connect_poll d env [0..<WS_RETRY]
               (log_msg DEBUG ''RyobiApi (WSS) Connecting'' [] s1)))"
| "connect_poll d env [] s = (Inr False, s)"
| "connect_poll d env (i # rest) s =
     (let s1 = log_msg DEBUG ''RyobiApi (WSS) awaiting connection established... %s''
                 [JInt (int i)] s
      in if socket_state s1 = SOCK_CONNECTED then
           (case authenticate_with_server d env s1 of
              (Inl e, s2) \<Rightarrow> (Inl e, s2)
            | (Inr _, s2) \<Rightarrow>
                (let s3 = sleep env s2
                 in case subscribe_to_notifications d env (device_id s3) s3 of
                      (Inl e, s4) \<Rightarrow> (Inl e, s4)
                    | (Inr _, s4) \<Rightarrow> (Inr True, s4)))
         else connect_poll d env rest (sleep env s1))"
| "authenticate_with_server d env s =
     (case publish_wss d env (auth_frame s)
             (log_msg DEBUG ''RyobiApi (WSS) Attempting to authenticate with websocket. '' [] s) of
        (Inl e, s1) \<Rightarrow> (Inl e, s1)
      | (Inr _, s1) \<Rightarrow> (Inr (), s1))"
| "subscribe_to_notifications d env d_id s =
     (case publish_wss d env (subscribe_frame d_id)
             (log_msg DEBUG ''RyobiApi (WSS) Subscribing to notifications for %s. ''
                [JStr d_id] s) of
        (Inl e, s1) \<Rightarrow> (Inl e, s1)
      | (Inr _, s1) \<Rightarrow>
          (case py_setitem (garage_state s1) (JStr ''is_available'') (JBool True) of
             Inl e \<Rightarrow> (Inl e, s1)
           | Inr gs' \<Rightarrow> (Inr True, call_subscriber (s1\<lparr>garage_state := gs'\<rparr>))))"
  by pat_completeness auto
termination
  by (relation "measure (\<lambda>x. case x of
         Inl (Inl (d, env, m, s)) \<Rightarrow> 100 * d
       | Inl (Inr (Inl (d, env, m, rest, s))) \<Rightarrow> 100 * d + 50 + length rest
       | Inl (Inr (Inr (d, env, s))) \<Rightarrow> 100 * d + 40
       | Inr (Inl (d, env, rest, s)) \<Rightarrow> 100 * d + 2 + length rest
       | Inr (Inr (Inl (d, env, s))) \<Rightarrow> 100 * d + 1
       | Inr (Inr (Inr (d, env, d_id, s))) \<Rightarrow> 100 * d + 1)")
     (simp_all add: N_RETRY_def WS_RETRY_def)

definition send_command :: "nat \<Rightarrow> env \<Rightarrow> json \<Rightarrow> ctrl \<Rightarrow> unit res" where
  "send_command d env command s =
     (case publish_wss d env command
             (log_msg DEBUG ''RyobiApi (WSS) send_command: %s to garage_door: %s''
                [command, JStr (device_id s)] s) of
        (Inl e, s1) \<Rightarrow> (Inl e, s1)
      | (Inr _, s1) \<Rightarrow> (Inr (), s1))"

section \<open>Commands (const.py, gdodevice.py)\<close>

definition WS_CMD_COVER_OPEN :: json where
  "WS_CMD_COVER_OPEN = JObj [(KStr ''doorCommand'', JInt 1)]"

definition WS_CMD_COVER_CLOSE :: json where
  "WS_CMD_COVER_CLOSE = JObj [(KStr ''doorCommand'', JInt 0)]"

definition prepare_command_payload :: "ctrl \<Rightarrow> json \<Rightarrow> json" where
  "prepare_command_payload s command =
     JObj [(KStr ''jsonrpc'', JStr ''2.0''),
           (KStr ''method'', JStr ''gdoModuleCommand''),
           (KStr ''params'',
            JObj [(KStr ''msgType'', JInt 16),
                  (KStr ''moduleType'', JInt 5),
                  (KStr ''portId'', port_id s),
                  (KStr ''moduleMsg'', command),
                  (KStr ''topic'', JStr (device_id s))])]"

definition open_cover :: "nat \<Rightarrow> env \<Rightarrow> ctrl \<Rightarrow> unit res" where
  "open_cover d env s = send_command d env (prepare_command_payload s WS_CMD_COVER_OPEN) s"

definition close_cover :: "nat \<Rightarrow> env \<Rightarrow> ctrl \<Rightarrow> unit res" where
  "close_cover d env s = send_command d env (prepare_command_payload s WS_CMD_COVER_CLOSE) s"

section \<open>A device and its surroundings, for evaluation\<close>

text \<open>The state that \<^verbatim>\<open>extract_device_info\<close> builds for a closed door on port 7, held by a
  connected controller of device \<^verbatim>\<open>dev1\<close> with one subscriber.\<close>

definition door_enum :: json where
  "door_enum = JList [JStr ''Closed'', JStr ''Open'', JStr ''Closing'', JStr ''Opening'',
                      JStr ''Fault'']"

definition example_state :: "int \<Rightarrow> json" where
  "example_state v =
     JObj [(KStr ''doorState'',
            JObj [(KStr ''lastSet'', JInt 1700000000000), (KStr ''lastValue'', JInt 1),
                  (KStr ''value'', JInt v), (KStr ''enum'', door_enum),
                  (KStr ''state'', JStr ''Closed'')]),
           (KStr ''doorPercentOpen'', JInt 0),
           (KStr ''doorPosition'',
            JObj [(KStr ''lastSet'', JInt 1700000000000), (KStr ''lastValue'', JInt 90),
                  (KStr ''value'', JInt 42)]),
           (KStr ''garageLight'',
            JObj [(KStr ''lightState'',
                   JObj [(KStr ''lastSet'', JInt 1700000000000),
                         (KStr ''lastValue'', JBool True), (KStr ''value'', JBool False)]),
                  (KStr ''lightTimer'',
                   JObj [(KStr ''lastSet'', JInt 1700000000000),
                         (KStr ''lastValue'', JInt 0), (KStr ''value'', JInt 5)])])]"

definition example_ctrl :: ctrl where
  "example_ctrl =
     \<lparr>username = ''user@example.org'', password = ''secret'', api_key = JStr ''k1'',
      user_id = JStr ''u1'', device_id = ''dev1'', port_id = JInt 7,
      socket_state = SOCK_CONNECTED, subscriber = [0], wst = Some 0, ws = Some 0,
      sent_counter = 0, garage_state = example_state 0, logged = [], effects = [],
      n_requests = 0, n_threads = 1, n_sleeps = 0, n_sends = 0\<rparr>"

definition update_params :: "string \<Rightarrow> (key \<times> json) list" where
  "update_params d_id =
     [(KStr ''topic'', JStr (d_id @ ''.wskAttributeUpdateNtfy'')),
      (KStr ''varName'', JStr d_id),
      (KStr ''id'', JStr ''7''),
      (KStr ''garageDoor_7.doorState'',
       JObj [(KStr ''value'', JInt 1), (KStr ''lastValue'', JInt 0)])]"

definition update_frame :: "string \<Rightarrow> json" where
  "update_frame d_id =
     JObj [(KStr ''jsonrpc'', JStr ''2.0''),
           (KStr ''method'', JStr ''wskAttributeUpdateNtfy''),
           (KStr ''params'', JObj (update_params d_id))]"

text \<open>Surroundings: a network that is down; a server that rejects the credentials; a
  server that accepts the socket during the first sleep of the controller and answers
  every send; the same server behind a first socket thread that dies at once; and the
  same server when it accepts the socket during the tenth sleep only.\<close>

definition env_down :: env where
  "env_down =
     \<lparr>http_response = (\<lambda>n. RequestError), thread_start = (\<lambda>n. Dead),
      callbacks = (\<lambda>n. []), send_result = (\<lambda>n. WebSocketConnectionClosedException)\<rparr>"

definition env_401 :: env where
  "env_401 =
     \<lparr>http_response = (\<lambda>n. Response 401 None), thread_start = (\<lambda>n. Dead),
      callbacks = (\<lambda>n. []), send_result = (\<lambda>n. WebSocketConnectionClosedException)\<rparr>"

definition env_up :: env where
  "env_up =
     \<lparr>http_response = (\<lambda>n. RequestError), thread_start = (\<lambda>n. Alive),
      callbacks = (\<lambda>n. if n = 0 then [OnOpen] else []), send_result = (\<lambda>n. SendOk)\<rparr>"

definition env_second_try :: env where
  "env_second_try =
     \<lparr>http_response = (\<lambda>n. RequestError),
      thread_start = (\<lambda>n. if n = 1 then Dead else Alive),
      callbacks = (\<lambda>n. if n = 0 then [OnOpen] else []), send_result = (\<lambda>n. SendOk)\<rparr>"

definition env_late :: env where
  "env_late =
     \<lparr>http_response = (\<lambda>n. RequestError), thread_start = (\<lambda>n. Alive),
      callbacks = (\<lambda>n. if n = 9 then [OnOpen] else []), send_result = (\<lambda>n. SendOk)\<rparr>"

section \<open>The cells an update names\<close>

text \<open>
  The subscripts that \<^verbatim>\<open>parse_device_update\<close> puts before \<^verbatim>\<open>[item]\<close> for a dotted key:
  the module name for a door key, \<^verbatim>\<open>garageLight\<close> and the module name for a light key.
\<close>

definition group_path :: "string \<Rightarrow> json list option" where
  "group_path k =
     (case module_name_of k of
        Inl _ \<Rightarrow> None
      | Inr m \<Rightarrow>
          if str_contains ''garageDoor'' k then Some [JStr m]
          else if str_contains ''garageLight'' k then Some [JStr ''garageLight'', JStr m]
          else None)"

text \<open>The cells of the device state that one key of the update names, one for each item
  of its field map, and the cells the whole update names.\<close>

definition key_paths :: "(key \<times> json) list \<Rightarrow> key \<Rightarrow> json list list" where
  "key_paths kvs key =
     (if key = KStr ''topic'' \<or> key = KStr ''varName'' \<or> key = KStr ''id'' then []
      else
        (case (key, map_of kvs key) of
           (KStr k, Some flds) \<Rightarrow>
             (case (group_path k, py_iter flds) of
                (Some q, Inr items) \<Rightarrow> map (\<lambda>item. q @ [item]) items
              | _ \<Rightarrow> [])
         | _ \<Rightarrow> []))"

definition named_paths :: "(key \<times> json) list \<Rightarrow> json list list" where
  "named_paths kvs = concat (map (key_paths kvs) (map fst kvs))"

text \<open>A path of attribute names lies apart from a cell when the two part ways at some
  subscript, so that neither contains the other.\<close>

fun apart :: "string list \<Rightarrow> json list \<Rightarrow> bool" where
  "apart (a # p) (b # q) = (JStr a \<noteq> b \<or> apart p q)"
| "apart _ _ = False"

definition closed_ctrl :: ctrl where
  "closed_ctrl = example_ctrl\<lparr>socket_state := SOCK_CLOSE\<rparr>"

definition stalled_ctrl :: ctrl where
  "stalled_ctrl = example_ctrl\<lparr>sent_counter := 5, n_sends := 5\<rparr>"

section \<open>Reading the effects\<close>

text \<open>The frames put on the wire, and the sockets created, in the order of the effects.\<close>

fun sent_frames :: "effect list \<Rightarrow> json list" where
  "sent_frames [] = []"
| "sent_frames (WsSend w m # es) = m # sent_frames es"
| "sent_frames (e # es) = sent_frames es"

text \<open>No frame is put on the wire before a socket has been created: the first socket
  operation among the effects, if it is a send or a creation, is a creation.\<close>

fun created_first :: "effect list \<Rightarrow> bool" where
  "created_first [] = True"
| "created_first (WsCreate n # es) = True"
| "created_first (WsSend w m # es) = False"
| "created_first (e # es) = created_first es"

text \<open>A step that only talks HTTP leaves the connection state as it was, and creates no
  socket and sends no frame.\<close>

definition http_only :: "ctrl \<Rightarrow> ctrl \<Rightarrow> bool" where
  "http_only s s' \<longleftrightarrow>
     socket_state s' = socket_state s \<and>
     (\<exists>es. effects s' = effects s @ es \<and> created_first es \<and> (\<forall>n. WsCreate n \<notin> set es))"

section \<open>What a step may change\<close>

text \<open>The merge engine writes the device state and the log and nothing else of the
  controller.\<close>

definition frame_gl :: "ctrl \<Rightarrow> ctrl \<Rightarrow> bool" where
  "frame_gl s s' \<longleftrightarrow> s' = s\<lparr>garage_state := garage_state s', logged := logged s'\<rparr>"

text \<open>Between reconnect attempts that fail, the socket is not open, nothing has been put on
  the wire, and the key, the device state and the watchdog counter are what they were.\<close>

definition still_closed :: "ctrl \<Rightarrow> ctrl \<Rightarrow> bool" where
  "still_closed s s' \<longleftrightarrow>
     socket_state s' \<noteq> SOCK_CONNECTED \<and> api_key s' = api_key s \<and>
     sent_frames (effects s') = sent_frames (effects s) \<and>
     garage_state s' = garage_state s \<and> sent_counter s' = sent_counter s"

section \<open>Basic facts\<close>

lemma range_N_RETRY [simp]: "[0..<N_RETRY] = [0, 1, 2, 3, 4]"
  by (simp add: N_RETRY_def upt_rec)

lemma range_WS_RETRY [simp]: "[0..<WS_RETRY] = [0, 1, 2, 3, 4, 5, 6, 7, 8, 9]"
  by (simp add: WS_RETRY_def upt_rec)

lemma frame_gl_refl [simp]: "frame_gl s s"
  by (simp add: frame_gl_def)

lemma frame_gl_trans: "frame_gl s s1 \<Longrightarrow> frame_gl s1 s2 \<Longrightarrow> frame_gl s s2"
  unfolding frame_gl_def by (cases s; cases s1; cases s2) simp

lemma frame_gl_log [simp]: "frame_gl s (log_msg l f a s)"
  by (simp add: frame_gl_def log_msg_def)

lemma frame_gl_gs [simp]: "frame_gl s (s\<lparr>garage_state := g\<rparr>)"
  by (simp add: frame_gl_def)

lemma frame_gl_log': "frame_gl s s1 \<Longrightarrow> frame_gl s (log_msg l f a s1)"
  by (erule frame_gl_trans) simp

lemma frame_gl_sent_counter: "frame_gl s s' \<Longrightarrow> sent_counter s' = sent_counter s"
  unfolding frame_gl_def by (cases s; cases s') simp

lemma sent_counter_log_msg [simp]: "sent_counter (log_msg l f a s) = sent_counter s"
  by (simp add: log_msg_def)

lemma sent_counter_call_subscriber [simp]: "sent_counter (call_subscriber s) = sent_counter s"
  by (simp add: call_subscriber_def)

lemma py_getitem_str_in: "py_getitem j (JStr k) = Inr v \<Longrightarrow> py_in k j = Inr True"
  by (cases j) (auto split: option.splits)

lemma getpath2_JObj:
  assumes "py_getpath j [JStr a, JStr b] = Inr v"
  obtains g d where "j = JObj g" "map_of g (KStr a) = Some (JObj d)" "map_of d (KStr b) = Some v"
proof -
  from assms obtain g where g: "j = JObj g"
    by (cases j) (auto split: sum.splits)
  with assms obtain c where c: "map_of g (KStr a) = Some c" "py_getitem c (JStr b) = Inr v"
    by (auto split: option.splits sum.splits)
  then obtain d where "c = JObj d" "map_of d (KStr b) = Some v"
    by (cases c) (auto split: option.splits)
  with g c that show thesis by blast
qed

section \<open>The merge engine touches the device state and the log only\<close>

lemma store_items_frame: "frame_gl s (snd (store_items path src items s))"
proof (induction items arbitrary: s)
  case Nil
  show ?case by simp
next
  case (Cons item items)
  show ?case
  proof (cases "py_getitem src item")
    case (Inl e)
    then show ?thesis by simp
  next
    case (Inr v)
    then show ?thesis
      using Cons frame_gl_trans[OF frame_gl_gs]
      by (cases "py_setpath (garage_state s) path item v") auto
  qed
qed

lemma store_group_frame: "frame_gl s (snd (store_group path src s))"
  by (cases "py_iter src") (simp_all add: store_group_def store_items_frame)

lemma parse_keys_frame: "frame_gl s (snd (parse_keys kvs keys s))"
proof (induction keys arbitrary: s)
  case Nil
  show ?case by simp
next
  case (Cons key keys)
  let ?s1 = "log_msg DEBUG ''RyobiApi (WSS) parse update each item in %s: %s''
               [of_key key, the (map_of kvs key)] s"
  have grp: "frame_gl s (snd (case store_group p flds ?s1 of
                (Inl e, s2) \<Rightarrow> (Inl e, s2) | (Inr _, s2) \<Rightarrow> parse_keys kvs keys s2))" for p flds
  proof (cases "store_group p flds ?s1")
    case (Pair r s2)
    have "frame_gl s s2"
      using store_group_frame[of ?s1 p flds] Pair frame_gl_trans[OF frame_gl_log] by fastforce
    then show ?thesis
      using Pair Cons[of s2] frame_gl_trans by (cases r) auto
  qed
  show ?case
  proof (cases "key = KStr ''topic'' \<or> key = KStr ''varName'' \<or> key = KStr ''id''")
    case True
    then show ?thesis using Cons by auto
  next
    case False
    show ?thesis
    proof (cases "map_of kvs key")
      case None
      then show ?thesis using False by simp
    next
      case (Some flds)
      show ?thesis
      proof (cases key)
        case (KStr k)
        show ?thesis
        proof (cases "module_name_of k")
          case (Inl e)
          then show ?thesis using False Some KStr by (simp add: Let_def)
        next
          case (Inr m)
          have "frame_gl s (snd (parse_keys kvs keys (log_msg ERROR
                  ''RyobiApi (WSS) parse update: Did not recognized module: %s'' [JStr k] ?s1)))"
            using Cons frame_gl_trans frame_gl_log' frame_gl_log by blast
          then show ?thesis using False Some KStr Inr grp by (simp add: Let_def)
        qed
      qed (use False Some in \<open>simp_all add: Let_def\<close>)
    qed
  qed
qed

lemma parse_device_update_frame: "frame_gl s (snd (parse_device_update u s))"
proof (cases "py_getitem u (JStr ''varName'')")
  case (Inl e)
  then show ?thesis by (simp add: parse_device_update_def)
next
  case (Inr v)
  then show ?thesis
    by (cases u) (simp_all add: parse_device_update_def parse_keys_frame)
qed

section \<open>Sibling isolation\<close>

lemma to_key_KStr: "to_key k = Inr (KStr a) \<Longrightarrow> k = JStr a"
  by (cases k) (auto split: if_splits)

lemma garage_state_log_msg [simp]: "garage_state (log_msg l f a s) = garage_state s"
  by (simp add: log_msg_def)

text \<open>A store under one subscript is not seen under another name, and is seen under its
  own.\<close>

lemma setitem_other:
  assumes "py_setitem j k v = Inr j'" "JStr a \<noteq> k"
  shows "py_getitem j' (JStr a) = py_getitem j (JStr a)"
proof (cases j)
  case (JObj kvs)
  with assms obtain k' where k': "to_key k = Inr k'" "j' = JObj (AList.update k' v kvs)"
    by (auto split: sum.splits)
  with assms(2) have "k' \<noteq> KStr a" using to_key_KStr by blast
  with JObj k' show ?thesis by (simp add: AList.update_conv')
next
  case (JList xs)
  with assms show ?thesis by (auto split: option.splits)
qed (use assms in simp_all)

lemma setitem_same:
  assumes "py_setitem j (JStr a) v = Inr j'"
  shows "py_getitem j' (JStr a) = Inr v"
  using assms by (cases j) (auto simp: AList.update_conv')

lemma setpath_apart:
  assumes "py_setpath j q k v = Inr j'" "apart p (q @ [k])"
  shows "py_getpath j' (map JStr p) = py_getpath j (map JStr p)"
  using assms
proof (induction q arbitrary: j j' p)
  case Nil
  then obtain a p' where p: "p = a # p'" by (cases p) auto
  with Nil have "JStr a \<noteq> k" by simp
  with Nil show ?case using p by (simp add: setitem_other)
next
  case (Cons b q)
  then obtain a p' where p: "p = a # p'" by (cases p) auto
  from Cons.prems(1) obtain c c' where c: "py_getitem j b = Inr c"
    "py_setpath c q k v = Inr c'" "py_setitem j b c' = Inr j'"
    by (auto split: sum.splits)
  show ?case
  proof (cases "JStr a = b")
    case False
    then show ?thesis using c p by (simp add: setitem_other)
  next
    case True
    with Cons.prems(2) p have ap: "apart p' (q @ [k])" by simp
    have "py_getitem j' (JStr a) = Inr c'" using c(3) True setitem_same by blast
    moreover have "py_getitem j (JStr a) = Inr c" using c(1) True by simp
    ultimately show ?thesis using p Cons.IH[OF c(2) ap] by simp
  qed
qed

lemma store_items_apart:
  assumes "\<forall>item \<in> set items. apart p (path @ [item])"
  shows "py_getpath (garage_state (snd (store_items path src items s))) (map JStr p) =
         py_getpath (garage_state s) (map JStr p)"
  using assms
proof (induction items arbitrary: s)
  case Nil
  show ?case by simp
next
  case (Cons item items)
  show ?case
  proof (cases "py_getitem src item")
    case (Inl e)
    then show ?thesis by simp
  next
    case (Inr v)
    show ?thesis
    proof (cases "py_setpath (garage_state s) path item v")
      case (Inl e)
      with Inr show ?thesis by simp
    next
      case gs: (Inr gs')
      have "py_getpath gs' (map JStr p) = py_getpath (garage_state s) (map JStr p)"
        using setpath_apart[OF gs] Cons.prems by simp
      then show ?thesis using Inr gs Cons by simp
    qed
  qed
qed

lemma store_group_apart:
  assumes "\<And>items. py_iter src = Inr items \<Longrightarrow> \<forall>item \<in> set items. apart p (path @ [item])"
  shows "py_getpath (garage_state (snd (store_group path src s))) (map JStr p) =
         py_getpath (garage_state s) (map JStr p)"
  using assms by (cases "py_iter src") (simp_all add: store_group_def store_items_apart)

lemma parse_keys_apart:
  assumes "\<forall>w \<in> set (concat (map (key_paths kvs) keys)). apart p w"
  shows "py_getpath (garage_state (snd (parse_keys kvs keys s))) (map JStr p) =
         py_getpath (garage_state s) (map JStr p)"
  using assms
proof (induction keys arbitrary: s)
  case Nil
  show ?case by simp
next
  case (Cons key keys)
  have rest: "\<forall>w \<in> set (concat (map (key_paths kvs) keys)). apart p w"
    and this_key: "\<forall>w \<in> set (key_paths kvs key). apart p w"
    using Cons.prems by auto
  note IH = Cons.IH[OF rest]
  let ?s1 = "log_msg DEBUG ''RyobiApi (WSS) parse update each item in %s: %s''
               [of_key key, the (map_of kvs key)] s"
  have grp: "py_getpath (garage_state (snd (case store_group q flds ?s1 of
                (Inl e, s2) \<Rightarrow> (Inl e, s2) | (Inr _, s2) \<Rightarrow> parse_keys kvs keys s2))) (map JStr p)
             = py_getpath (garage_state s) (map JStr p)"
    if "\<And>items. py_iter flds = Inr items \<Longrightarrow> \<forall>item \<in> set items. apart p (q @ [item])" for q flds
  proof (cases "store_group q flds ?s1")
    case (Pair r s2)
    have "py_getpath (garage_state s2) (map JStr p) = py_getpath (garage_state s) (map JStr p)"
      using store_group_apart[of flds p q ?s1] that Pair by simp
    then show ?thesis using Pair IH[of s2] by (cases r) auto
  qed
  show ?case
  proof (cases "key = KStr ''topic'' \<or> key = KStr ''varName'' \<or> key = KStr ''id''")
    case True
    then show ?thesis using IH by auto
  next
    case False
    show ?thesis
    proof (cases "map_of kvs key")
      case None
      then show ?thesis using False by simp
    next
      case (Some flds)
      show ?thesis
      proof (cases key)
        case (KStr k)
        show ?thesis
        proof (cases "module_name_of k")
          case (Inl e)
          then show ?thesis using False Some KStr by (simp add: Let_def)
        next
          case (Inr m)
          have door: "\<forall>item \<in> set items. apart p ([JStr m] @ [item])"
            if "str_contains ''garageDoor'' k" "py_iter flds = Inr items" for items
            using this_key False Some KStr Inr that
            by (auto simp: key_paths_def group_path_def)
          have light: "\<forall>item \<in> set items. apart p ([JStr ''garageLight'', JStr m] @ [item])"
            if "\<not> str_contains ''garageDoor'' k" "str_contains ''garageLight'' k"
              "py_iter flds = Inr items" for items
            using this_key False Some KStr Inr that
            by (auto simp: key_paths_def group_path_def)
          show ?thesis
          proof (cases "str_contains ''garageDoor'' k")
            case True
            then show ?thesis
              using False Some KStr Inr grp[of flds "[JStr m]"] door by (simp add: Let_def)
          next
            case nd: False
            show ?thesis
            proof (cases "str_contains ''garageLight'' k")
              case True
              then show ?thesis
                using nd False Some KStr Inr grp[of flds "[JStr ''garageLight'', JStr m]"] light
                by (simp add: Let_def)
            next
              case nl: False
              then show ?thesis
                using nd False Some KStr Inr IH by (simp add: Let_def)
            qed
          qed
        qed
      qed (use False Some in \<open>simp_all add: Let_def\<close>)
    qed
  qed
qed

text \<open>
  C8. Whatever an update holds and whether or not the merge engine gets through it, a
  path of attribute names that lies apart from every cell the update names reads after
  the merge what it read before. For a path of length one this is the attribute group:
  a group no dotted key of the update names keeps its value. For a longer path it is the
  leaf: inside a named group the fields the update does not mention keep theirs.
\<close>

theorem parse_device_update_sibling_isolation:
  assumes "\<forall>w \<in> set (named_paths kvs). apart p w"
  shows "py_getpath (garage_state (snd (parse_device_update (JObj kvs) s))) (map JStr p) =
         py_getpath (garage_state s) (map JStr p)"
proof (cases "py_getitem (JObj kvs) (JStr ''varName'')")
  case (Inl e)
  then show ?thesis by (simp add: parse_device_update_def)
next
  case (Inr v)
  then show ?thesis
    using parse_keys_apart[of kvs "map fst kvs" p s] assms
    by (simp add: parse_device_update_def named_paths_def del: py_getitem.simps)
qed

theorem parse_device_update_sibling_isolation_witness:
  "named_paths (update_params ''dev1'') =
     [[JStr ''doorState'', JStr ''value''], [JStr ''doorState'', JStr ''lastValue'']] \<and>
   apart [''doorState'', ''enum''] [JStr ''doorState'', JStr ''value''] \<and>
   apart [''doorState'', ''enum''] [JStr ''doorState'', JStr ''lastValue''] \<and>
   py_getpath (garage_state (snd (parse_device_update (JObj (update_params ''dev1''))
       example_ctrl))) [JStr ''doorState'', JStr ''enum''] = Inr door_enum \<and>
   py_getpath (garage_state (snd (parse_device_update (JObj (update_params ''dev1''))
       example_ctrl))) [JStr ''doorState'', JStr ''value''] = Inr (JInt 1)"
proof -
  have np: "named_paths (update_params ''dev1'') =
     [[JStr ''doorState'', JStr ''value''], [JStr ''doorState'', JStr ''lastValue'']]"
    by (simp add: named_paths_def update_params_def key_paths_def group_path_def
          module_name_of_def)
  have h: "\<forall>w \<in> set (named_paths (update_params ''dev1'')). apart [''doorState'', ''enum''] w"
    by (simp add: np)
  have before: "py_getpath (garage_state example_ctrl) [JStr ''doorState'', JStr ''enum'']
      = Inr door_enum"
    by (simp add: example_ctrl_def example_state_def)
  have written: "py_getpath (garage_state (snd (parse_device_update
      (JObj (update_params ''dev1'')) example_ctrl))) [JStr ''doorState'', JStr ''value'']
      = Inr (JInt 1)"
    by (simp add: update_params_def example_ctrl_def example_state_def
          parse_device_update_def module_name_of_def store_group_def Let_def log_msg_def)
  show ?thesis
    using parse_device_update_sibling_isolation[OF h, of example_ctrl] np before written
    by simp
qed

section \<open>Inbound frames\<close>

lemma sent_counter_after_parse [simp]:
  "sent_counter (snd (case parse_device_update p s of
       (Inl e, s3) \<Rightarrow> (Inl e, s3) | (Inr u, s3) \<Rightarrow> (Inr (), call_subscriber s3))) = sent_counter s"
  using frame_gl_sent_counter[OF parse_device_update_frame, of p s]
  by (cases "parse_device_update p s") (auto split: sum.splits)

lemma on_update_ntfy_sent_counter: "sent_counter (snd (on_update_ntfy m s)) = sent_counter s"
  by (simp add: on_update_ntfy_def Let_def split: sum.splits bool.splits)

lemma on_auth_ok_sent_counter: "sent_counter (snd (on_auth_ok m s)) = sent_counter s"
  by (simp add: on_auth_ok_def Let_def split: sum.splits bool.splits)

lemma on_cmd_ack_sent_counter: "sent_counter (snd (on_cmd_ack m s)) = sent_counter s"
  by (simp add: on_cmd_ack_def Let_def split: sum.splits bool.splits)

text \<open>
  C10. Every inbound frame resets the watchdog counter, whatever its shape and whatever
  the handler does with it afterwards; the reset comes before decoding, so a frame that
  cannot be decoded leaves the controller with the counter at zero as well, the
  decoder's exception notwithstanding.
\<close>

theorem on_message_resets_watchdog:
  "sent_counter (snd (on_message msg s)) = 0 \<and>
   on_message None s = (Inl JSONDecodeError, s\<lparr>sent_counter := 0\<rparr>)"
proof
  show "sent_counter (snd (on_message msg s)) = 0"
    by (simp add: on_message_def Let_def on_update_ntfy_sent_counter on_auth_ok_sent_counter
          on_cmd_ack_sent_counter split: option.splits sum.splits bool.splits)
  show "on_message None s = (Inl JSONDecodeError, s\<lparr>sent_counter := 0\<rparr>)"
    by (simp add: on_message_def)
qed

text \<open>
  C1, as the code has it. An update notification whose \<^verbatim>\<open>varName\<close> is not the
  controller's device id is dropped by the merge engine: the handler returns normally and
  the device state is what it was. The handler then calls the subscribers all the same,
  each once, in registration order.
\<close>

theorem on_message_other_device:
  assumes "py_getitem message (JStr ''method'') = Inr (JStr GARAGE_UPDATE_MSG)"
    and "py_getitem message (JStr ''params'') = Inr params"
    and "py_getitem params (JStr ''varName'') = Inr v"
    and "v \<noteq> JStr (device_id s)"
  shows "fst (on_message (Some message) s) = Inr () \<and>
         garage_state (snd (on_message (Some message) s)) = garage_state s \<and>
         effects (snd (on_message (Some message) s)) = effects s @ map Notify (subscriber s)"
proof -
  have m: "py_in ''method'' message = Inr True" and p: "py_in ''params'' message = Inr True"
    using assms(1,2) by (auto dest: py_getitem_str_in)
  have pd: "parse_device_update params s' =
         (Inr (), log_msg DEBUG
               ''RyobiApi (WSS): Recieved update for a differnt device! (%s but I am %s)''
               [v, JStr (device_id s')] s')" if "device_id s' = device_id s" for s'
    using assms(3,4) that by (auto simp: parse_device_update_def)
  show ?thesis
    using assms(1,2) m p
    by (simp add: on_message_def on_update_ntfy_def Let_def pd log_msg_def call_subscriber_def)
qed

theorem on_message_other_device_witness:
  "py_getitem (update_frame ''dev2'') (JStr ''method'') = Inr (JStr GARAGE_UPDATE_MSG) \<and>
   py_getpath (update_frame ''dev2'') [JStr ''params'', JStr ''varName''] = Inr (JStr ''dev2'') \<and>
   JStr ''dev2'' \<noteq> JStr (device_id example_ctrl) \<and>
   fst (on_message (Some (update_frame ''dev2'')) example_ctrl) = Inr () \<and>
   garage_state (snd (on_message (Some (update_frame ''dev2'')) example_ctrl))
     = garage_state example_ctrl \<and>
   effects (snd (on_message (Some (update_frame ''dev2'')) example_ctrl)) = [Notify 0]"
  using on_message_other_device[of "update_frame ''dev2''" _ "JStr ''dev2''" example_ctrl]
  by (simp add: update_frame_def update_params_def example_ctrl_def)

text \<open>The claim as the specification states it fails: the subscriber of the example
  controller is called for an update addressed to another device.\<close>

theorem on_message_other_device_counterexample:
  "effects (snd (on_message (Some (update_frame ''dev2'')) example_ctrl))
     \<noteq> effects example_ctrl"
  by (simp add: update_frame_def update_params_def example_ctrl_def on_message_def on_update_ntfy_def
        parse_device_update_def Let_def log_msg_def call_subscriber_def)




section \<open>Login\<close>

text \<open>
  C3. What the code does when the server answers the login request with status 401.
  \<^verbatim>\<open>send_http\<close> gives up at once, after that one request, and hands back its error
  dictionary. \<^verbatim>\<open>login\<close> then subscripts the dictionary with \<^verbatim>\<open>"result"\<close>, a key it
  does not have: the caller gets a \<^verbatim>\<open>KeyError\<close>, not \<^verbatim>\<open>False\<close>.
\<close>

theorem login_401_raises:
  assumes "http_response env (n_requests s) = Response 401 body"
  shows "fst (login env url s) = Inl KeyError \<and>
         effects (snd (login env url s)) = effects s @ [HttpSend ''POST'' url]"
  using assms
  by (simp add: login_def send_http_def Let_def log_msg_def)

theorem login_401_raises_witness:
  "http_response env_401 (n_requests example_ctrl) = Response 401 None \<and>
   fst (login env_401 login_url example_ctrl) = Inl KeyError \<and>
   effects (snd (login env_401 login_url example_ctrl)) =
     [HttpSend ''POST'' ''https://tti.tiwiconnect.com/api/login'']"
  using login_401_raises[of env_401 example_ctrl None login_url]
  by (simp add: env_401_def example_ctrl_def login_url_def)

section \<open>Connecting\<close>

text \<open>
  C7. Called while the connection state is \<^verbatim>\<open>Open\<close>, \<^verbatim>\<open>connect_wss\<close> returns \<^verbatim>\<open>True\<close> at
  once. It performs no socket operation and no other effect, and leaves the connection
  state, the socket and thread objects and the device state as they were: only a debug
  line is added to the log.
\<close>

theorem connect_wss_already_open:
  assumes "socket_state s = SOCK_CONNECTED"
  shows "fst (connect_wss (Suc d) env s) = Inr True \<and>
         effects (snd (connect_wss (Suc d) env s)) = effects s \<and>
         socket_state (snd (connect_wss (Suc d) env s)) = socket_state s \<and>
         ws (snd (connect_wss (Suc d) env s)) = ws s \<and>
         wst (snd (connect_wss (Suc d) env s)) = wst s \<and>
         garage_state (snd (connect_wss (Suc d) env s)) = garage_state s \<and>
         snd (connect_wss (Suc d) env s) =
           s\<lparr>logged := logged s @ [(DEBUG, ''RyobiApi (WSS) Already connected... '', [])]\<rparr>"
  using assms by (simp add: log_msg_def)

theorem connect_wss_already_open_witness:
  "socket_state example_ctrl = SOCK_CONNECTED \<and>
   fst (connect_wss (Suc 0) env_down example_ctrl) = Inr True \<and>
   effects (snd (connect_wss (Suc 0) env_down example_ctrl)) = [] \<and>
   ws (snd (connect_wss (Suc 0) env_down example_ctrl)) = Some 0"
  using connect_wss_already_open[of example_ctrl 0 env_down]
  by (simp add: example_ctrl_def)

section \<open>Sending while the socket is not open\<close>

lemma log_msg_fields [simp]:
  "username (log_msg l f a s) = username s"
  "password (log_msg l f a s) = password s"
  "api_key (log_msg l f a s) = api_key s"
  "user_id (log_msg l f a s) = user_id s"
  "device_id (log_msg l f a s) = device_id s"
  "port_id (log_msg l f a s) = port_id s"
  "socket_state (log_msg l f a s) = socket_state s"
  "subscriber (log_msg l f a s) = subscriber s"
  "wst (log_msg l f a s) = wst s"
  "ws (log_msg l f a s) = ws s"
  "effects (log_msg l f a s) = effects s"
  "n_requests (log_msg l f a s) = n_requests s"
  "n_threads (log_msg l f a s) = n_threads s"
  "n_sleeps (log_msg l f a s) = n_sleeps s"
  "n_sends (log_msg l f a s) = n_sends s"
  by (simp_all add: log_msg_def)

lemma sent_frames_append [simp]: "sent_frames (xs @ ys) = sent_frames xs @ sent_frames ys"
  by (induction xs rule: sent_frames.induct) simp_all

lemma still_closed_log [simp]:
  "still_closed s (log_msg l f a s1) \<longleftrightarrow> still_closed s s1"
  by (simp add: still_closed_def)

lemma fold_callbacks_closed:
  assumes "OnOpen \<notin> set cs" "still_closed s s1"
  shows "still_closed s (fold run_callback cs s1) \<and>
         n_threads (fold run_callback cs s1) = n_threads s1"
  using assms
proof (induction cs arbitrary: s1)
  case Nil
  then show ?case by simp
next
  case (Cons c cs)
  have "still_closed s (run_callback c s1) \<and> n_threads (run_callback c s1) = n_threads s1"
    using Cons.prems
    by (cases c) (auto simp: still_closed_def on_close_def on_error_def Let_def log_msg_def)
  then show ?case using Cons by simp
qed

lemma sleep_closed:
  assumes "OnOpen \<notin> set (callbacks env (n_sleeps s1))" "still_closed s s1"
  shows "still_closed s (sleep env s1) \<and> n_threads (sleep env s1) = n_threads s1"
proof -
  have "still_closed s (s1\<lparr>n_sleeps := Suc (n_sleeps s1)\<rparr>)"
    using assms(2) by (simp add: still_closed_def)
  from fold_callbacks_closed[OF assms(1) this] show ?thesis by (simp add: sleep_def)
qed

lemma connect_poll_never_opens:
  assumes "\<forall>n. OnOpen \<notin> set (callbacks env n)" "still_closed s s1"
  shows "fst (connect_poll d env polls s1) = Inr False \<and>
         still_closed s (snd (connect_poll d env polls s1)) \<and>
         n_threads (snd (connect_poll d env polls s1)) = n_threads s1"
  using assms(2)
proof (induction polls arbitrary: s1)
  case Nil
  then show ?case by simp
next
  case (Cons i polls)
  let ?s2 = "log_msg DEBUG ''RyobiApi (WSS) awaiting connection established... %s''
               [JInt (int i)] s1"
  have c: "still_closed s ?s2" using Cons.prems by simp
  then have no: "socket_state ?s2 \<noteq> SOCK_CONNECTED" by (simp add: still_closed_def)
  have sl: "still_closed s (sleep env ?s2)" "n_threads (sleep env ?s2) = n_threads s1"
    using sleep_closed[of env ?s2 s] assms(1) c by simp_all
  show ?case
    using no Cons.IH[OF sl(1)] sl(2) by (simp add: Let_def)
qed

lemma open_wss_thread_closed:
  assumes "py_truthy (api_key s1)" "still_closed s s1"
  shows "(\<exists>b. fst (open_wss_thread env s1) = Inr b) \<and>
         still_closed s (snd (open_wss_thread env s1)) \<and>
         n_threads (snd (open_wss_thread env s1)) = Suc (n_threads s1)"
  using assms
  by (cases "thread_start env (n_threads s1)")
     (auto simp: open_wss_thread_def check_credentials_def Let_def still_closed_def log_msg_def)

lemma connect_wss_never_opens:
  assumes "\<forall>n. OnOpen \<notin> set (callbacks env n)" "still_closed s s1" "py_truthy (api_key s)"
  shows "(\<exists>b. fst (connect_wss (Suc d) env s1) = Inr b) \<and>
         still_closed s (snd (connect_wss (Suc d) env s1)) \<and>
         n_threads (snd (connect_wss (Suc d) env s1)) = Suc (n_threads s1)"
proof -
  let ?s2 = "log_msg DEBUG ''RyobiApi (WSS) Not connected, connecting'' [] s1"
  have no: "socket_state s1 \<noteq> SOCK_CONNECTED" and k: "py_truthy (api_key ?s2)"
    using assms(2,3) by (simp_all add: still_closed_def)
  have c2: "still_closed s ?s2" using assms(2) by simp
  obtain r s3 where o: "open_wss_thread env ?s2 = (r, s3)" by (cases "open_wss_thread env ?s2")
  from open_wss_thread_closed[OF k c2, of env] o obtain b where
    b: "r = Inr b" "still_closed s s3" "n_threads s3 = Suc (n_threads s1)" by auto
  show ?thesis
  proof (cases b)
    case False
    with no o b show ?thesis by auto
  next
    case True
    have "still_closed s (log_msg DEBUG ''RyobiApi (WSS) Connecting'' [] s3)"
      using b(2) by simp
    from connect_poll_never_opens[OF assms(1) this, of d "[0..<WS_RETRY]"]
    show ?thesis using no o b True by (auto simp del: range_WS_RETRY)
  qed
qed

lemma publish_attempts_never_opens:
  assumes "\<forall>n. OnOpen \<notin> set (callbacks env n)" "still_closed s s1" "py_truthy (api_key s)"
  shows "fst (publish_attempts (Suc d) env m attempts s1) = Inr False \<and>
         still_closed s (snd (publish_attempts (Suc d) env m attempts s1)) \<and>
         n_threads (snd (publish_attempts (Suc d) env m attempts s1))
           = n_threads s1 + length attempts"
  using assms(2)
proof (induction attempts arbitrary: s1)
  case Nil
  then show ?case by simp
next
  case (Cons a attempts)
  let ?s2 = "log_msg DEBUG
               ''RyobiApi (WSS) Can't publish message socket_state= %s, reconnecting... ''
               [JStr (socket_state s1)] s1"
  have no: "socket_state s1 \<noteq> SOCK_CONNECTED" using Cons.prems by (simp add: still_closed_def)
  have c2: "still_closed s ?s2" using Cons.prems by simp
  obtain r s3 where o: "connect_wss (Suc d) env ?s2 = (r, s3)"
    by (cases "connect_wss (Suc d) env ?s2")
  from connect_wss_never_opens[OF assms(1) c2 assms(3), of d] o obtain b where
    b: "r = Inr b" "still_closed s s3" "n_threads s3 = Suc (n_threads s1)" by auto
  show ?case
    using no o b Cons.IH[OF b(2)] by simp
qed

lemma publish_wss_never_opens:
  assumes "socket_state s \<noteq> SOCK_CONNECTED" "py_truthy (api_key s)"
    and "\<forall>n. OnOpen \<notin> set (callbacks env n)"
    and "sent_counter s < 5 \<or> ws s \<noteq> None"
  shows "fst (publish_wss (Suc (Suc d)) env m s) = Inr False \<and>
         socket_state (snd (publish_wss (Suc (Suc d)) env m s)) \<noteq> SOCK_CONNECTED \<and>
         sent_frames (effects (snd (publish_wss (Suc (Suc d)) env m s)))
           = sent_frames (effects s) \<and>
         n_threads (snd (publish_wss (Suc (Suc d)) env m s)) = n_threads s + 5"
proof (cases "sent_counter s < 5")
  case True
  let ?s1 = "log_msg DEBUG ''RyobiApi (WSS) Publishing message : %s'' [m] s"
  have c: "still_closed ?s1 ?s1" and k: "py_truthy (api_key ?s1)"
    using assms(1,2) by (simp_all add: still_closed_def)
  from publish_attempts_never_opens[OF assms(3) c k, of d m "[0..<N_RETRY]"] True
  show ?thesis by (simp add: Let_def still_closed_def)
next
  case False
  with assms(4) obtain w where w: "ws s = Some w" by auto
  let ?s2 = "(log_msg WARNING
               ''RyobiApi (WSS) Link is UP, but server has stopped answering request. '' []
               (log_msg DEBUG ''RyobiApi (WSS) Publishing message : %s'' [m] s))
             \<lparr>sent_counter := 0\<rparr>"
  let ?s3 = "?s2\<lparr>effects := effects ?s2 @ [WsClose w], socket_state := SOCK_CLOSE\<rparr>"
  have c: "still_closed ?s3 ?s3" and k: "py_truthy (api_key ?s3)"
    using assms(2) by (simp_all add: still_closed_def)
  from publish_attempts_never_opens[OF assms(3) c k, of d m "[0..<N_RETRY]"] False w
  show ?thesis by (simp add: Let_def still_closed_def)
qed

text \<open>
  C6, as the code has it. A controller that holds an API key is asked to send a command
  while its connection state is not \<^verbatim>\<open>Open\<close>, and the socket does not open during the
  call. Then \<^verbatim>\<open>publish_wss\<close> makes five reconnect attempts, puts nothing on the wire and
  returns \<^verbatim>\<open>False\<close>, without raising; \<^verbatim>\<open>send_command\<close> drops that result and returns
  \<^verbatim>\<open>None\<close>, as it does when the command has been sent.
\<close>

theorem send_command_never_opens:
  assumes "socket_state s \<noteq> SOCK_CONNECTED" "py_truthy (api_key s)"
    and "\<forall>n. OnOpen \<notin> set (callbacks env n)"
    and "sent_counter s < 5 \<or> ws s \<noteq> None"
  shows "fst (publish_wss (Suc (Suc d)) env command s) = Inr False \<and>
         fst (send_command (Suc (Suc d)) env command s) = Inr () \<and>
         sent_frames (effects (snd (send_command (Suc (Suc d)) env command s)))
           = sent_frames (effects s) \<and>
         n_threads (snd (send_command (Suc (Suc d)) env command s)) = n_threads s + 5 \<and>
         socket_state (snd (send_command (Suc (Suc d)) env command s)) \<noteq> SOCK_CONNECTED"
proof -
  let ?s1 = "log_msg DEBUG ''RyobiApi (WSS) send_command: %s to garage_door: %s''
               [command, JStr (device_id s)] s"
  have a: "socket_state ?s1 \<noteq> SOCK_CONNECTED" "py_truthy (api_key ?s1)"
    "sent_counter ?s1 < 5 \<or> ws ?s1 \<noteq> None"
    using assms(1,2,4) by simp_all
  obtain r s2 where p: "publish_wss (Suc (Suc d)) env command ?s1 = (r, s2)"
    by (cases "publish_wss (Suc (Suc d)) env command ?s1")
  from publish_wss_never_opens[OF a(1,2) assms(3) a(3), of d command] p
  have "r = Inr False" "socket_state s2 \<noteq> SOCK_CONNECTED"
    "sent_frames (effects s2) = sent_frames (effects s)" "n_threads s2 = n_threads s + 5"
    by simp_all
  then show ?thesis
    using p publish_wss_never_opens[OF assms, of d command]
    by (simp add: send_command_def)
qed

theorem send_command_never_opens_witness:
  "socket_state closed_ctrl \<noteq> SOCK_CONNECTED \<and> py_truthy (api_key closed_ctrl) \<and>
   (\<forall>n. OnOpen \<notin> set (callbacks env_down n)) \<and> sent_counter closed_ctrl < 5 \<and>
   fst (open_cover (Suc (Suc 0)) env_down closed_ctrl) = Inr () \<and>
   sent_frames (effects (snd (open_cover (Suc (Suc 0)) env_down closed_ctrl))) = [] \<and>
   n_threads (snd (open_cover (Suc (Suc 0)) env_down closed_ctrl)) = 6"
  using send_command_never_opens[of closed_ctrl env_down 0
          "prepare_command_payload closed_ctrl WS_CMD_COVER_OPEN"]
  by (simp add: open_cover_def closed_ctrl_def example_ctrl_def env_down_def)

text \<open>The claim as the specification states it fails: the caller of the open command
  gets the same \<^verbatim>\<open>None\<close> when every reconnect attempt has failed and nothing was sent as
  when the socket opened and the command went out.\<close>

theorem send_command_result_counterexample:
  "fst (open_cover (Suc (Suc (Suc 0))) env_down closed_ctrl) = Inr () \<and>
   sent_frames (effects (snd (open_cover (Suc (Suc (Suc 0))) env_down closed_ctrl))) = [] \<and>
   fst (open_cover (Suc (Suc (Suc 0))) env_up closed_ctrl) = Inr () \<and>
   sent_frames (effects (snd (open_cover (Suc (Suc (Suc 0))) env_up closed_ctrl))) =
     [auth_frame closed_ctrl, subscribe_frame ''dev1'',
      prepare_command_payload closed_ctrl WS_CMD_COVER_OPEN]"
  by (simp add: open_cover_def send_command_def closed_ctrl_def example_ctrl_def env_down_def
        env_up_def open_wss_thread_def check_credentials_def sleep_def on_open_def
        call_subscriber_def example_state_def Let_def auth_frame_def)

section \<open>The watchdog\<close>

text \<open>Polls during which nothing happens only cost sleeps and log lines.\<close>

lemma connect_poll_wait:
  assumes "socket_state s \<noteq> SOCK_CONNECTED"
    and "\<forall>i < length xs. callbacks env (n_sleeps s + i) = []"
  shows "\<exists>lg. connect_poll d env (xs @ ys) s =
           connect_poll d env ys (s\<lparr>n_sleeps := n_sleeps s + length xs, logged := lg\<rparr>)"
  using assms
proof (induction xs arbitrary: s)
  case Nil
  have "s\<lparr>n_sleeps := n_sleeps s + length ([]::nat list), logged := logged s\<rparr> = s" by simp
  then show ?case by (metis append_Nil)
next
  case (Cons x xs)
  let ?s1 = "log_msg DEBUG ''RyobiApi (WSS) awaiting connection established... %s''
               [JInt (int x)] s"
  have c0: "callbacks env (n_sleeps s) = []" using Cons.prems(2) by force
  then have sl: "sleep env ?s1 = ?s1\<lparr>n_sleeps := Suc (n_sleeps s)\<rparr>"
    by (simp add: sleep_def)
  have a: "socket_state (sleep env ?s1) \<noteq> SOCK_CONNECTED"
    using Cons.prems(1) by (simp add: sl)
  have b: "\<forall>i < length xs. callbacks env (n_sleeps (sleep env ?s1) + i) = []"
    using Cons.prems(2) by (auto simp: sl)
  from Cons.IH[OF a b] obtain lg where
    lg: "connect_poll d env (xs @ ys) (sleep env ?s1) =
         connect_poll d env ys
           ((sleep env ?s1)\<lparr>n_sleeps := n_sleeps (sleep env ?s1) + length xs, logged := lg\<rparr>)"
    by blast
  have e: "(sleep env ?s1)\<lparr>n_sleeps := n_sleeps (sleep env ?s1) + length xs, logged := lg\<rparr>
           = s\<lparr>n_sleeps := n_sleeps s + length (x # xs), logged := lg\<rparr>"
    unfolding sl by (simp add: log_msg_def)
  have "connect_poll d env ((x # xs) @ ys) s = connect_poll d env (xs @ ys) (sleep env ?s1)"
    using Cons.prems(1) by (simp add: Let_def)
  with lg e show ?case by metis
qed

text \<open>A send on an open socket below the watchdog threshold.\<close>

lemma publish_wss_open:
  assumes "socket_state s = SOCK_CONNECTED" "ws s = Some n" "sent_counter s < 5"
    and "send_result env (n_sends s) = SendOk"
  shows "publish_wss (Suc d) env m s =
           (Inr True,
            s\<lparr>logged := logged s @
                 [(DEBUG, ''RyobiApi (WSS) Publishing message : %s'', [m]),
                  (DEBUG, ''RyobiApi (WSS) Msg published OK (%s)'', [JInt 0])],
               effects := effects s @ [WsSend n m],
               n_sends := Suc (n_sends s),
               sent_counter := sent_counter s + 1\<rparr>)"
  using assms by (simp add: Let_def log_msg_def)

lemma upt_split3:
  assumes "Suc j < N"
  shows "[0..<N] = [0..<j] @ j # Suc j # [Suc (Suc j)..<N]"
  using assms upt_add_eq_append[of 0 j "N - j"] by (simp add: upt_conv_Cons)

text \<open>
  A reconnect attempt that succeeds: the thread starts, the socket opens during one of the
  first nine polls, stays open, and the two frames go out. One socket is created, the
  authentication and the subscription are sent on it, and the subscribers are called.
\<close>

lemma connect_wss_succeeds:
  assumes closed: "socket_state s \<noteq> SOCK_CONNECTED"
    and key: "py_truthy (api_key s)"
    and gs: "garage_state s = JObj g"
    and cnt: "sent_counter s < 4"
    and th: "thread_start env (n_threads s) = Alive"
    and j: "j < 9"
    and quiet: "\<forall>i < j. callbacks env (n_sleeps s + i) = []"
    and opened: "callbacks env (n_sleeps s + j) = [OnOpen]"
    and after: "callbacks env (Suc (n_sleeps s + j)) = []"
    and sends: "send_result env (n_sends s) = SendOk" "send_result env (Suc (n_sends s)) = SendOk"
  shows "fst (connect_wss (Suc (Suc d)) env s) = Inr True \<and>
         socket_state (snd (connect_wss (Suc (Suc d)) env s)) = SOCK_CONNECTED \<and>
         ws (snd (connect_wss (Suc (Suc d)) env s)) = Some (n_threads s) \<and>
         sent_counter (snd (connect_wss (Suc (Suc d)) env s)) = sent_counter s + 2 \<and>
         n_sends (snd (connect_wss (Suc (Suc d)) env s)) = n_sends s + 2 \<and>
         n_threads (snd (connect_wss (Suc (Suc d)) env s)) = Suc (n_threads s) \<and>
         effects (snd (connect_wss (Suc (Suc d)) env s)) =
           effects s @ [WsCreate (n_threads s), WsSend (n_threads s) (auth_frame s),
                        WsSend (n_threads s) (subscribe_frame (device_id s))]
             @ map Notify (subscriber s)"
proof -
  let ?n = "n_threads s"
  define rest where "rest = [Suc (Suc j)..<WS_RETRY]"
  let ?s1 = "log_msg DEBUG ''RyobiApi (WSS) Not connected, connecting'' [] s"
  obtain s2 where o: "open_wss_thread env ?s1 = (Inr True, s2)"
    and s2: "socket_state s2 = socket_state s" "ws s2 = Some ?n"
      "effects s2 = effects s @ [WsCreate ?n]" "n_threads s2 = Suc ?n"
      "n_sleeps s2 = n_sleeps s" "n_sends s2 = n_sends s" "sent_counter s2 = sent_counter s"
      "garage_state s2 = garage_state s" "username s2 = username s" "api_key s2 = api_key s"
      "device_id s2 = device_id s" "subscriber s2 = subscriber s"
    using key th by (simp add: open_wss_thread_def check_credentials_def Let_def log_msg_def)
  let ?s3 = "log_msg DEBUG ''RyobiApi (WSS) Connecting'' [] s2"
  have split: "[0..<WS_RETRY] = [0..<j] @ j # Suc j # rest"
    unfolding rest_def using j by (intro upt_split3) (simp add: WS_RETRY_def)
  have c1: "connect_wss (Suc (Suc d)) env s =
            connect_poll (Suc d) env ([0..<j] @ j # Suc j # rest) ?s3"
    using closed o by (simp del: range_WS_RETRY add: split)
  have a: "socket_state ?s3 \<noteq> SOCK_CONNECTED" using closed s2 by simp
  have b: "\<forall>i < length [0..<j]. callbacks env (n_sleeps ?s3 + i) = []" using quiet s2 by simp
  from connect_poll_wait[OF a b, of "Suc d" "j # Suc j # rest"]
  obtain lg where w: "connect_poll (Suc d) env ([0..<j] @ j # Suc j # rest) ?s3 =
      connect_poll (Suc d) env (j # Suc j # rest)
        (?s3\<lparr>n_sleeps := n_sleeps s + j, logged := lg\<rparr>)"
    using s2 by auto
  let ?s4 = "?s3\<lparr>n_sleeps := n_sleeps s + j, logged := lg\<rparr>"
  let ?s5 = "log_msg DEBUG ''RyobiApi (WSS) awaiting connection established... %s''
               [JInt (int j)] ?s4"
  have sl: "sleep env ?s5 = on_open (?s5\<lparr>n_sleeps := Suc (n_sleeps s + j)\<rparr>)"
    using opened by (simp add: sleep_def)
  have c2: "connect_poll (Suc d) env (j # Suc j # rest) ?s4 =
            connect_poll (Suc d) env (Suc j # rest) (sleep env ?s5)"
    using closed s2 by (simp add: Let_def)
  define s6 where "s6 = sleep env ?s5"
  have s6: "socket_state s6 = SOCK_CONNECTED" "ws s6 = Some ?n"
      "effects s6 = effects s @ [WsCreate ?n]" "n_threads s6 = Suc ?n"
      "n_sleeps s6 = Suc (n_sleeps s + j)" "n_sends s6 = n_sends s"
      "sent_counter s6 = sent_counter s"
      "garage_state s6 = JObj g" "username s6 = username s" "api_key s6 = api_key s"
      "device_id s6 = device_id s" "subscriber s6 = subscriber s"
    unfolding s6_def sl using s2 gs by (simp_all add: on_open_def)
  have c3: "connect_wss (Suc (Suc d)) env s = connect_poll (Suc d) env (Suc j # rest) s6"
    using c1 w c2 by (simp add: s6_def)
  show ?thesis
    unfolding c3 using s6 cnt sends after
    by (simp add: Let_def sleep_def call_subscriber_def auth_frame_def log_msg_def)
qed

text \<open>A creation, once among the effects, stays the first socket operation.\<close>

lemma created_first_append: "created_first es \<Longrightarrow> created_first es' \<Longrightarrow> created_first (es @ es')"
  by (induction es rule: created_first.induct) simp_all

lemma created_first_extend:
  "created_first es \<Longrightarrow> WsCreate n \<in> set es \<Longrightarrow> created_first (es @ es')"
  by (induction es rule: created_first.induct) auto

lemma effects_run_callback [simp]: "effects (run_callback c s) = effects s"
  by (cases c) (simp_all add: on_open_def on_close_def on_error_def Let_def)

lemma effects_fold_callbacks [simp]: "effects (fold run_callback cs s) = effects s"
  by (induction cs arbitrary: s) simp_all

lemma effects_sleep [simp]: "effects (sleep env s) = effects s"
  by (simp add: sleep_def)

text \<open>The HTTP client creates no socket and sends no frame.\<close>

lemma http_only_refl [simp]: "http_only s s"
  by (simp add: http_only_def)

lemma http_only_log [simp]: "http_only s (log_msg l f a s1) \<longleftrightarrow> http_only s s1"
  by (simp add: http_only_def)

lemma http_only_trans: "http_only s s1 \<Longrightarrow> http_only s1 s2 \<Longrightarrow> http_only s s2"
  unfolding http_only_def
  by (auto simp: created_first_append)

lemma http_only_request:
  "http_only s (s\<lparr>effects := effects s @ [HttpSend a b], n_requests := k\<rparr>)"
  by (simp add: http_only_def)

lemma send_http_attempts_http_only:
  "http_only s (snd (send_http_attempts env url meth attempts s))"
proof (induction attempts arbitrary: s)
  case Nil
  show ?case by simp
next
  case (Cons a attempts)
  let ?s1 = "s\<lparr>effects := effects s @ [HttpSend meth url], n_requests := Suc (n_requests s)\<rparr>"
  have 1: "http_only s ?s1" by (rule http_only_request)
  have 2: "http_only s (snd (send_http_attempts env url meth attempts (log_msg l f ar ?s1)))" for l f ar
    using http_only_trans[OF _ Cons.IH[of "log_msg l f ar ?s1"]] 1 by simp
  show ?case
    using 1 2
    by (cases "http_response env (n_requests s)")
       (simp_all add: Let_def split: option.splits)
qed

lemma send_http_http_only: "http_only s (snd (send_http env url p h meth s))"
proof -
  let ?s1 = "log_msg DEBUG ''Send HTTP request Url=%s Params=%s'' [JStr url, p] s"
  have "http_only ?s1 (snd (send_http_attempts env url meth [0..<N_RETRY] ?s1))"
    by (rule send_http_attempts_http_only)
  then show ?thesis
    unfolding send_http_def by (simp add: http_only_def del: range_N_RETRY)
qed

lemma login_effects:
  "effects (snd (login env url s)) =
     effects (snd (send_http env url
        (JObj [(KStr ''username'', JStr (username s)), (KStr ''password'', JStr (password s))])
        (JObj [(KStr ''host'', JStr RYOBI_URL), (KStr ''content-type'', JStr ''application/json'')])
        ''POST'' (log_msg DEBUG ''RyobiApi try login'' [] s))) \<and>
   socket_state (snd (login env url s)) =
     socket_state (snd (send_http env url
        (JObj [(KStr ''username'', JStr (username s)), (KStr ''password'', JStr (password s))])
        (JObj [(KStr ''host'', JStr RYOBI_URL), (KStr ''content-type'', JStr ''application/json'')])
        ''POST'' (log_msg DEBUG ''RyobiApi try login'' [] s)))"
  unfolding login_def Let_def
  by (simp split: prod.splits sum.splits bool.splits)


lemma http_only_log_left [simp]: "http_only (log_msg l f a s) s1 \<longleftrightarrow> http_only s s1"
  by (simp add: http_only_def)

lemma login_http_only: "http_only s (snd (login env url s))"
proof -
  let ?s1 = "log_msg DEBUG ''RyobiApi try login'' [] s"
  let ?P = "JObj [(KStr ''username'', JStr (username s)), (KStr ''password'', JStr (password s))]"
  let ?H = "JObj [(KStr ''host'', JStr RYOBI_URL), (KStr ''content-type'', JStr ''application/json'')]"
  have "http_only s (snd (send_http env url ?P ?H ''POST'' ?s1))"
    using send_http_http_only[of ?s1 env url ?P ?H "''POST''"] by simp
  then show ?thesis
    unfolding http_only_def using login_effects[of env url s] by simp
qed

lemma check_credentials_http_only: "http_only s (snd (check_credentials env s))"
  using login_http_only[of "log_msg DEBUG ''RyobiApi (WSS) api key needed'' []
                              (log_msg DEBUG ''RyobiApi (WSS) Checking credentials'' [] s)"
                           env login_url]
  by (auto simp: check_credentials_def Let_def split: prod.splits sum.splits)

lemma open_wss_thread_created:
  assumes "socket_state s \<noteq> SOCK_CONNECTED"
  shows "socket_state (snd (open_wss_thread env s)) \<noteq> SOCK_CONNECTED \<and>
    (\<exists>es. effects (snd (open_wss_thread env s)) = effects s @ es \<and> created_first es \<and>
       (fst (open_wss_thread env s) = Inr True \<longrightarrow> (\<exists>n. WsCreate n \<in> set es)))"
proof -
  obtain r s1 where c: "check_credentials env s = (r, s1)" by (cases "check_credentials env s")
  have "http_only s s1" using check_credentials_http_only[of s env] c by simp
  then obtain hs where hs: "socket_state s1 = socket_state s" "effects s1 = effects s @ hs"
      "created_first hs" unfolding http_only_def by auto
  have cf: "created_first (hs @ [WsCreate n])" for n using hs(3) by (simp add: created_first_append)
  show ?thesis
    using assms c hs cf
    by (cases r; cases "thread_start env (n_threads s1)")
       (auto simp: open_wss_thread_def Let_def split: bool.splits)
qed

text \<open>The effects only grow.\<close>

lemma effects_grow:
  "prefix (effects s) (effects (snd (publish_wss d env m s)))"
  "prefix (effects s) (effects (snd (publish_attempts d env m xs s)))"
  "prefix (effects s) (effects (snd (connect_wss d env s)))"
  "prefix (effects s) (effects (snd (connect_poll d env ys s)))"
  "prefix (effects s) (effects (snd (authenticate_with_server d env s)))"
  "prefix (effects s) (effects (snd (subscribe_to_notifications d env did s)))"
proof (induction d env m s and d env m xs s and d env s and d env ys s and d env s
         and d env did s
       rule: publish_wss_publish_attempts_connect_wss_connect_poll_authenticate_with_server_subscribe_to_notifications.induct)
  case (1 env m s)
  show ?case by simp
next
  case (2 d env m s)
  let ?s1 = "log_msg DEBUG ''RyobiApi (WSS) Publishing message : %s'' [m] s"
  show ?case
  proof (cases "5 \<le> sent_counter ?s1")
    case False
    from 2(2)[OF refl False] show ?thesis using False by (simp add: Let_def del: range_N_RETRY)
  next
    case True
    let ?s2 = "(log_msg WARNING
                 ''RyobiApi (WSS) Link is UP, but server has stopped answering request. '' []
                 ?s1)\<lparr>sent_counter := 0\<rparr>"
    show ?thesis
    proof (cases "ws ?s2")
      case None
      then show ?thesis using True by (simp add: Let_def del: range_N_RETRY)
    next
      case (Some w)
      from 2(1)[OF refl True refl Some]
      have "prefix (effects s) (effects (snd (publish_attempts d env m [0..<N_RETRY]
               (?s2\<lparr>effects := effects ?s2 @ [WsClose w], socket_state := SOCK_CLOSE\<rparr>))))"
        by (auto dest: append_prefixD)
      then show ?thesis using True Some by (simp add: Let_def del: range_N_RETRY)
    qed
  qed
next
  case (3 d env m s)
  show ?case by simp
next
  case (4 d env m a rest s)
  show ?case
  proof (cases "socket_state s = SOCK_CONNECTED")
    case True
    then show ?thesis using 4(1)
      by (auto simp: Let_def split: option.splits send_outcome.splits)
  next
    case False
    let ?s1 = "log_msg DEBUG
                 ''RyobiApi (WSS) Can't publish message socket_state= %s, reconnecting... ''
                 [JStr (socket_state s)] s"
    obtain x y where c: "connect_wss d env ?s1 = (x, y)" by (cases "connect_wss d env ?s1")
    have 1: "prefix (effects s) (effects y)" using 4(2)[OF False] c by simp
    show ?thesis
    proof (cases x)
      case (Inl e)
      then show ?thesis using False c 1 by simp
    next
      case (Inr b)
      have "prefix (effects y) (effects (snd (publish_attempts d env m rest y)))"
        using 4(3)[OF False c[symmetric] Inr] .
      with 1 have "prefix (effects s) (effects (snd (publish_attempts d env m rest y)))"
        by (rule prefix_order.trans)
      then show ?thesis using False c Inr by simp
    qed
  qed
next
  case (5 env s)
  show ?case by simp
next
  case (6 d env s)
  show ?case
  proof (cases "socket_state s = SOCK_CONNECTED")
    case True
    then show ?thesis by simp
  next
    case False
    let ?s1 = "log_msg DEBUG ''RyobiApi (WSS) Not connected, connecting'' [] s"
    obtain x y where o: "open_wss_thread env ?s1 = (x, y)" by (cases "open_wss_thread env ?s1")
    have "socket_state ?s1 \<noteq> SOCK_CONNECTED" using False by simp
    from open_wss_thread_created[OF this, of env] o
    have 1: "prefix (effects s) (effects y)" by (auto simp: prefix_def)
    show ?thesis
    proof (cases "x = Inr True")
      case True
      let ?y1 = "log_msg DEBUG ''RyobiApi (WSS) Connecting'' [] y"
      have "prefix (effects ?y1) (effects (snd (connect_poll d env [0..<WS_RETRY] ?y1)))"
        using 6[OF False o[symmetric] True refl] .
      then have "prefix (effects y) (effects (snd (connect_poll d env [0..<WS_RETRY] ?y1)))"
        by simp
      with 1 have "prefix (effects s) (effects (snd (connect_poll d env [0..<WS_RETRY] ?y1)))"
        by (rule prefix_order.trans)
      then show ?thesis using False o True by (simp del: range_WS_RETRY)
    next
      case F: False
      then show ?thesis using False o 1 by (cases x) (auto split: bool.splits)
    qed
  qed
next
  case (7 d env s)
  show ?case by simp
next
  case (8 d env i rest s)
  let ?x = "log_msg DEBUG ''RyobiApi (WSS) awaiting connection established... %s''
              [JInt (int i)] s"
  show ?case
  proof (cases "socket_state s = SOCK_CONNECTED")
    case True
    then have t: "socket_state ?x = SOCK_CONNECTED" by simp
    obtain xa y where a: "authenticate_with_server d env ?x = (xa, y)"
      by (cases "authenticate_with_server d env ?x")
    have 1: "prefix (effects s) (effects y)" using 8(1)[OF refl t] a by simp
    show ?thesis
    proof (cases xa)
      case (Inl e)
      then show ?thesis using True a 1
        by (simp add: Let_def del: authenticate_with_server.simps)
    next
      case (Inr b)
      let ?xb = "sleep env y"
      have "prefix (effects ?xb)
              (effects (snd (subscribe_to_notifications d env (device_id ?xb) ?xb)))"
        using 8(2)[OF refl t a[symmetric] Inr refl] .
      then have "prefix (effects y)
              (effects (snd (subscribe_to_notifications d env (device_id ?xb) ?xb)))"
        by simp
      with 1 have "prefix (effects s)
              (effects (snd (subscribe_to_notifications d env (device_id ?xb) ?xb)))"
        by (rule prefix_order.trans)
      then show ?thesis using True a Inr
        by (auto simp add: Let_def split: prod.splits sum.splits
              simp del: authenticate_with_server.simps subscribe_to_notifications.simps)
    qed
  next
    case False
    then have f: "socket_state ?x \<noteq> SOCK_CONNECTED" by simp
    show ?thesis using False 8(3)[OF refl f] by (simp add: Let_def)
  qed
next
  case (9 d env s)
  then show ?case by (auto split: prod.splits sum.splits)
next
  case (10 d env d_id s)
  then show ?case
    by (auto simp: call_subscriber_def split: prod.splits sum.splits)
qed

text \<open>From a state in which the socket is not open, a frame is sent only after a socket
  has been created.\<close>

lemma connect_wss_created:
  assumes "socket_state s \<noteq> SOCK_CONNECTED"
  shows "\<exists>es. effects (snd (connect_wss d env s)) = effects s @ es \<and> created_first es \<and>
           (socket_state (snd (connect_wss d env s)) = SOCK_CONNECTED \<longrightarrow>
              (\<exists>n. WsCreate n \<in> set es))"
proof (cases d)
  case 0
  then show ?thesis using assms by simp
next
  case (Suc d')
  let ?s1 = "log_msg DEBUG ''RyobiApi (WSS) Not connected, connecting'' [] s"
  obtain x y where o: "open_wss_thread env ?s1 = (x, y)" by (cases "open_wss_thread env ?s1")
  have "socket_state ?s1 \<noteq> SOCK_CONNECTED" using assms by simp
  from open_wss_thread_created[OF this, of env] o obtain es where
    es: "socket_state y \<noteq> SOCK_CONNECTED" "effects y = effects s @ es" "created_first es"
      "x = Inr True \<longrightarrow> (\<exists>n. WsCreate n \<in> set es)"
    by auto
  show ?thesis
  proof (cases "x = Inr True")
    case True
    let ?y1 = "log_msg DEBUG ''RyobiApi (WSS) Connecting'' [] y"
    from effects_grow(4)[of ?y1 d' env "[0..<WS_RETRY]"] obtain es2 where
      es2: "effects (snd (connect_poll d' env [0..<WS_RETRY] ?y1)) = effects y @ es2"
      by (auto simp: prefix_def)
    have "created_first (es @ es2)" using es True created_first_extend by blast
    moreover have "\<exists>n. WsCreate n \<in> set (es @ es2)" using es True by auto
    ultimately have "effects (snd (connect_poll d' env [0..<WS_RETRY] ?y1)) = effects s @ (es @ es2) \<and>
        created_first (es @ es2) \<and> (\<exists>n. WsCreate n \<in> set (es @ es2))"
      using es es2 by simp
    then have "\<exists>es. effects (snd (connect_poll d' env [0..<WS_RETRY] ?y1)) = effects s @ es \<and>
        created_first es \<and> (\<exists>n. WsCreate n \<in> set es)"
      by blast
    then show ?thesis using assms o True Suc by (auto simp del: range_WS_RETRY)
  next
    case False
    then show ?thesis using assms o Suc es by (cases x) (auto split: bool.splits)
  qed
qed

lemma publish_attempts_created:
  assumes "socket_state s \<noteq> SOCK_CONNECTED"
  shows "\<exists>es. effects (snd (publish_attempts d env m xs s)) = effects s @ es \<and>
           created_first es"
  using assms
proof (induction xs arbitrary: s)
  case Nil
  show ?case by simp
next
  case (Cons a xs)
  let ?s1 = "log_msg DEBUG
               ''RyobiApi (WSS) Can't publish message socket_state= %s, reconnecting... ''
               [JStr (socket_state s)] s"
  obtain x y where c: "connect_wss d env ?s1 = (x, y)" by (cases "connect_wss d env ?s1")
  have "socket_state ?s1 \<noteq> SOCK_CONNECTED" using Cons.prems by simp
  from connect_wss_created[OF this, of d env] c obtain es where
    es: "effects y = effects s @ es" "created_first es"
      "socket_state y = SOCK_CONNECTED \<longrightarrow> (\<exists>n. WsCreate n \<in> set es)"
    by auto
  show ?case
  proof (cases x)
    case (Inl e)
    then show ?thesis using Cons.prems c es by simp
  next
    case (Inr b)
    have "\<exists>es2. effects (snd (publish_attempts d env m xs y)) = effects y @ es2 \<and>
            created_first (es @ es2)"
    proof (cases "socket_state y = SOCK_CONNECTED")
      case True
      from effects_grow(2)[of y d env m xs] obtain es2 where
        "effects (snd (publish_attempts d env m xs y)) = effects y @ es2"
        by (auto simp: prefix_def)
      moreover have "created_first (es @ es2)" using es True created_first_extend by blast
      ultimately show ?thesis by blast
    next
      case False
      from Cons.IH[OF False] obtain es2 where
        "effects (snd (publish_attempts d env m xs y)) = effects y @ es2" "created_first es2"
        by blast
      then show ?thesis using es created_first_append by blast
    qed
    then obtain es2 where "effects (snd (publish_attempts d env m xs y)) = effects s @ (es @ es2)"
      "created_first (es @ es2)" using es by auto
    then have "\<exists>es. effects (snd (publish_attempts d env m xs y)) = effects s @ es \<and>
      created_first es" by blast
    then show ?thesis using Cons.prems c Inr by simp
  qed
qed

text \<open>The watchdog branch.\<close>

lemma publish_wss_tripped:
  assumes "5 \<le> sent_counter s" "ws s = Some w"
  shows "publish_wss (Suc d) env m s =
           publish_attempts d env m [0..<N_RETRY]
             (s\<lparr>logged := logged s @
                   [(DEBUG, ''RyobiApi (WSS) Publishing message : %s'', [m]),
                    (WARNING,
                     ''RyobiApi (WSS) Link is UP, but server has stopped answering request. '',
                     [])],
                 sent_counter := 0,
                 effects := effects s @ [WsClose w],
                 socket_state := SOCK_CLOSE\<rparr>)"
  using assms by (simp add: Let_def log_msg_def del: range_N_RETRY)

lemma publish_wss_tripped_created:
  assumes "5 \<le> sent_counter s" "ws s = Some w"
  shows "\<exists>es. effects (snd (publish_wss (Suc d) env m s)) = effects s @ WsClose w # es \<and>
           created_first es"
proof -
  let ?s3 = "s\<lparr>logged := logged s @
                   [(DEBUG, ''RyobiApi (WSS) Publishing message : %s'', [m]),
                    (WARNING,
                     ''RyobiApi (WSS) Link is UP, but server has stopped answering request. '',
                     [])],
                 sent_counter := 0,
                 effects := effects s @ [WsClose w],
                 socket_state := SOCK_CLOSE\<rparr>"
  have "socket_state ?s3 \<noteq> SOCK_CONNECTED" by simp
  from publish_attempts_created[OF this, of d env m "[0..<N_RETRY]"]
  show ?thesis unfolding publish_wss_tripped[OF assms] by simp
qed

text \<open>
  The same send with the whole scenario as hypotheses: the socket thread of the first
  reconnect attempt starts, the socket opens during one of the first nine polls and nothing
  else happens up to the poll after, and the three sends succeed.
\<close>

lemma publish_wss_one_reconnect:
  assumes tripped: "5 \<le> sent_counter s"
    and sock: "ws s = Some w"
    and key: "py_truthy (api_key s)"
    and gs: "garage_state s = JObj g"
    and th: "thread_start env (n_threads s) = Alive"
    and j: "j < 9"
    and quiet: "\<forall>i < j. callbacks env (n_sleeps s + i) = []"
    and opened: "callbacks env (n_sleeps s + j) = [OnOpen]"
    and after: "callbacks env (Suc (n_sleeps s + j)) = []"
    and sends: "send_result env (n_sends s) = SendOk" "send_result env (Suc (n_sends s)) = SendOk"
      "send_result env (Suc (Suc (n_sends s))) = SendOk"
  shows "fst (publish_wss (Suc (Suc (Suc d))) env m s) = Inr True \<and>
         effects (snd (publish_wss (Suc (Suc (Suc d))) env m s)) =
           effects s @ [WsClose w, WsCreate (n_threads s), WsSend (n_threads s) (auth_frame s),
                        WsSend (n_threads s) (subscribe_frame (device_id s))]
             @ map Notify (subscriber s) @ [WsSend (n_threads s) m] \<and>
         socket_state (snd (publish_wss (Suc (Suc (Suc d))) env m s)) = SOCK_CONNECTED \<and>
         sent_counter (snd (publish_wss (Suc (Suc (Suc d))) env m s)) = 3 \<and>
         n_threads (snd (publish_wss (Suc (Suc (Suc d))) env m s)) = Suc (n_threads s)"
proof -
  let ?s2 = "(log_msg WARNING
               ''RyobiApi (WSS) Link is UP, but server has stopped answering request. '' []
               (log_msg DEBUG ''RyobiApi (WSS) Publishing message : %s'' [m] s))
             \<lparr>sent_counter := 0\<rparr>"
  let ?s3 = "?s2\<lparr>effects := effects ?s2 @ [WsClose w], socket_state := SOCK_CLOSE\<rparr>"
  let ?s4 = "log_msg DEBUG
               ''RyobiApi (WSS) Can't publish message socket_state= %s, reconnecting... ''
               [JStr (socket_state ?s3)] ?s3"
  have p: "publish_wss (Suc (Suc (Suc d))) env m s =
           (case connect_wss (Suc (Suc d)) env ?s4 of
              (Inl e, s1) \<Rightarrow> (Inl e, s1)
            | (Inr _, s1) \<Rightarrow> publish_attempts (Suc (Suc d)) env m [Suc 0, 2, 3, 4] s1)"
    using tripped sock by (simp add: Let_def del: connect_wss.simps)
  obtain r s5 where c: "connect_wss (Suc (Suc d)) env ?s4 = (r, s5)"
    by (cases "connect_wss (Suc (Suc d)) env ?s4")
  have "fst (connect_wss (Suc (Suc d)) env ?s4) = Inr True \<and>
        socket_state (snd (connect_wss (Suc (Suc d)) env ?s4)) = SOCK_CONNECTED \<and>
        ws (snd (connect_wss (Suc (Suc d)) env ?s4)) = Some (n_threads ?s4) \<and>
        sent_counter (snd (connect_wss (Suc (Suc d)) env ?s4)) = sent_counter ?s4 + 2 \<and>
        n_sends (snd (connect_wss (Suc (Suc d)) env ?s4)) = n_sends ?s4 + 2 \<and>
        n_threads (snd (connect_wss (Suc (Suc d)) env ?s4)) = Suc (n_threads ?s4) \<and>
        effects (snd (connect_wss (Suc (Suc d)) env ?s4)) =
          effects ?s4 @ [WsCreate (n_threads ?s4), WsSend (n_threads ?s4) (auth_frame ?s4),
                         WsSend (n_threads ?s4) (subscribe_frame (device_id ?s4))]
            @ map Notify (subscriber ?s4)"
    by (rule connect_wss_succeeds[where g = g and j = j])
       (use key gs th j quiet opened after sends in \<open>simp_all\<close>)
  with c have s5: "r = Inr True" "socket_state s5 = SOCK_CONNECTED" "ws s5 = Some (n_threads s)"
    "sent_counter s5 = 2" "n_sends s5 = Suc (Suc (n_sends s))"
    "n_threads s5 = Suc (n_threads s)"
    "effects s5 = effects s @ [WsClose w, WsCreate (n_threads s),
                        WsSend (n_threads s) (auth_frame s),
                        WsSend (n_threads s) (subscribe_frame (device_id s))]
             @ map Notify (subscriber s)"
    by (simp_all add: auth_frame_def)
  show ?thesis
    unfolding p c using s5 sends(3) by (simp add: Let_def)
qed




text \<open>When the socket opens during the tenth poll only, \<^verbatim>\<open>connect_wss\<close> has looked at
  the connection state for the last time: it sends neither the authentication nor the
  subscription frame, and the payload goes out on the new socket without them. One socket
  is created in this case too.\<close>

lemma publish_wss_late_open:
  "fst (publish_wss (Suc (Suc (Suc 0))) env_late
          (prepare_command_payload stalled_ctrl WS_CMD_COVER_OPEN) stalled_ctrl) = Inr True \<and>
   effects (snd (publish_wss (Suc (Suc (Suc 0))) env_late
          (prepare_command_payload stalled_ctrl WS_CMD_COVER_OPEN) stalled_ctrl)) =
     [WsClose 0, WsCreate 1,
      WsSend 1 (prepare_command_payload stalled_ctrl WS_CMD_COVER_OPEN)]"
  by (simp add: stalled_ctrl_def example_ctrl_def env_late_def
        open_wss_thread_def check_credentials_def sleep_def on_open_def
        call_subscriber_def example_state_def Let_def auth_frame_def)

section \<open>Derived accessors\<close>

lemma current_state_JObj:
  assumes "garage_state s = JObj g" "map_of g (KStr ''doorState'') = Some (JObj d)"
    "map_of d (KStr ''enum'') = Some en" "map_of d (KStr ''value'') = Some v"
  shows "current_state s =
           (case py_getitem en v of
              Inl e \<Rightarrow> (Inl e, s)
            | Inr st \<Rightarrow>
                (Inr st,
                 s\<lparr>garage_state :=
                      JObj (AList.update (KStr ''doorState'')
                              (JObj (AList.update (KStr ''state'') st d)) g)\<rparr>))"
  using assms
  by (simp add: current_state_def AList.update_conv' split: sum.splits)

lemma current_state_Inr:
  assumes "current_state s = (Inr st, s1)"
  shows "(st = JNull \<and> s1 = s \<and> py_in ''doorState'' (garage_state s) = Inr False) \<or>
         (\<exists>g d en v. garage_state s = JObj g \<and> map_of g (KStr ''doorState'') = Some (JObj d) \<and>
             map_of d (KStr ''enum'') = Some en \<and> map_of d (KStr ''value'') = Some v \<and>
             py_getitem en v = Inr st \<and>
             s1 = s\<lparr>garage_state :=
                      JObj (AList.update (KStr ''doorState'')
                              (JObj (AList.update (KStr ''state'') st d)) g)\<rparr>)"
proof (cases "py_in ''doorState'' (garage_state s)")
  case (Inl e)
  with assms show ?thesis by (simp add: current_state_def)
next
  case (Inr b)
  show ?thesis
  proof (cases b)
    case False
    with Inr assms show ?thesis by (simp add: current_state_def)
  next
    case True
    with Inr assms obtain en
      where en: "py_getpath (garage_state s) [JStr ''doorState'', JStr ''enum''] = Inr en"
      by (cases "py_getpath (garage_state s) [JStr ''doorState'', JStr ''enum'']")
         (simp_all add: current_state_def)
    from en obtain g d where gd: "garage_state s = JObj g"
      "map_of g (KStr ''doorState'') = Some (JObj d)" "map_of d (KStr ''enum'') = Some en"
      by (rule getpath2_JObj)
    from Inr True assms en gd obtain v where v: "map_of d (KStr ''value'') = Some v"
      by (cases "map_of d (KStr ''value'')") (simp_all add: current_state_def)
    from assms show ?thesis
      unfolding current_state_JObj[OF gd v] using gd v
      by (auto split: sum.splits)
  qed
qed

text \<open>Reading the property a second time gives the same answer and changes nothing.\<close>

lemma current_state_idem:
  assumes "current_state s = (Inr st, s1)"
  shows "current_state s1 = (Inr st, s1)"
  using current_state_Inr[OF assms]
proof (elim disjE exE conjE)
  assume "st = JNull" "s1 = s" "py_in ''doorState'' (garage_state s) = Inr False"
  then show ?thesis by (simp add: current_state_def)
next
  fix g d en v
  assume a: "garage_state s = JObj g" "map_of g (KStr ''doorState'') = Some (JObj d)"
    "map_of d (KStr ''enum'') = Some en" "map_of d (KStr ''value'') = Some v"
    "py_getitem en v = Inr st"
    "s1 = s\<lparr>garage_state := JObj (AList.update (KStr ''doorState'')
                              (JObj (AList.update (KStr ''state'') st d)) g)\<rparr>"
  let ?d' = "AList.update (KStr ''state'') st d"
  let ?g' = "AList.update (KStr ''doorState'') (JObj ?d') g"
  have 1: "garage_state s1 = JObj ?g'" using a by simp
  have 2: "map_of ?g' (KStr ''doorState'') = Some (JObj ?d')" by (simp add: AList.update_conv')
  have 3: "map_of ?d' (KStr ''enum'') = Some en" "map_of ?d' (KStr ''value'') = Some v"
    using a by (simp_all add: AList.update_conv')
  have 4: "AList.update (KStr ''state'') st ?d' = ?d'"
    by (simp add: AList.update_triv AList.update_conv')
  have 5: "AList.update (KStr ''doorState'') (JObj ?d') ?g' = ?g'"
    by (simp add: AList.update_triv AList.update_conv')
  show ?thesis
    unfolding current_state_JObj[OF 1 2 3] using a(5,6) by (simp add: 4 5)
qed

text \<open>
  C2, as the code has it. With the door-state attribute holding the integer \<open>v\<close> and a
  list as its enum table: for \<open>v\<close> a valid index the derived state is the table's entry
  at \<open>v\<close>; for \<open>v\<close> negative and not below minus the table's length it is the entry
  counted from the end; for any other \<open>v\<close> the read raises \<^verbatim>\<open>IndexError\<close>.
\<close>

theorem current_state_index:
  assumes "garage_state s = JObj g" "map_of g (KStr ''doorState'') = Some (JObj d)"
    "map_of d (KStr ''enum'') = Some (JList en)" "map_of d (KStr ''value'') = Some (JInt v)"
  shows "fst (current_state s) =
           (if 0 \<le> v \<and> v < int (length en) then Inr (en ! nat v)
            else if - int (length en) \<le> v \<and> v < 0 then Inr (en ! nat (int (length en) + v))
            else Inl IndexError)"
  unfolding current_state_JObj[OF assms]
  by (auto simp: seq_index_def norm_index_def)

theorem current_state_index_witness:
  "fst (current_state (example_ctrl\<lparr>garage_state := example_state 3\<rparr>)) = Inr (JStr ''Opening'') \<and>
   fst (current_state (example_ctrl\<lparr>garage_state := example_state (- 1)\<rparr>)) = Inr (JStr ''Fault'') \<and>
   fst (current_state (example_ctrl\<lparr>garage_state := example_state (- 6)\<rparr>)) = Inl IndexError"
  using
    current_state_index[of "example_ctrl\<lparr>garage_state := example_state 3\<rparr>" _ _
      "[JStr ''Closed'', JStr ''Open'', JStr ''Closing'', JStr ''Opening'', JStr ''Fault'']" 3]
    current_state_index[of "example_ctrl\<lparr>garage_state := example_state (- 1)\<rparr>" _ _
      "[JStr ''Closed'', JStr ''Open'', JStr ''Closing'', JStr ''Opening'', JStr ''Fault'']" "- 1"]
    current_state_index[of "example_ctrl\<lparr>garage_state := example_state (- 6)\<rparr>" _ _
      "[JStr ''Closed'', JStr ''Open'', JStr ''Closing'', JStr ''Opening'', JStr ''Fault'']" "- 6"]
  by (simp add: example_ctrl_def example_state_def door_enum_def)

text \<open>The claim as the specification states it fails: the value 5 is out of range for
  the five-entry table, and reading the derived state raises.\<close>

theorem current_state_out_of_range_counterexample:
  "fst (current_state (example_ctrl\<lparr>garage_state := example_state 5\<rparr>)) = Inl IndexError"
  by (simp add: current_state_def example_ctrl_def example_state_def door_enum_def
        seq_index_def norm_index_def)

text \<open>
  C9, as the code has it. The cover position follows the derived door state. When reading
  that state raises, so does reading the position. When it can be read, the position is
  the sentinel \<open>-1\<close> (below every position of the scale) for \<^verbatim>\<open>Closed\<close>, the top of the
  scale, \<open>100\<close>, for \<^verbatim>\<open>Open\<close>, and for every other state the result of reading the field
  \<^verbatim>\<open>doorPosition.value\<close> as the device reported it.
\<close>

theorem current_cover_position_cases:
  "fst (current_cover_position s) =
     (case fst (current_state s) of
        Inl e \<Rightarrow> Inl e
      | Inr st \<Rightarrow>
          if st = JStr ''Closed'' then Inr (JInt (- 1))
          else if st = JStr ''Open'' then Inr (JInt 100)
          else py_getpath (garage_state s) [JStr ''doorPosition'', JStr ''value''])"
proof (cases "current_state s")
  case (Pair r s1)
  show ?thesis
  proof (cases r)
    case (Inl e)
    with Pair show ?thesis by (simp add: current_cover_position_def)
  next
    case (Inr st)
    with Pair have cs: "current_state s = (Inr st, s1)" by simp
    have "py_getpath (garage_state s1) [JStr ''doorPosition'', JStr ''value''] =
          py_getpath (garage_state s) [JStr ''doorPosition'', JStr ''value'']"
      using current_state_Inr[OF cs] by (auto simp: AList.update_conv')
    then show ?thesis
      using cs current_state_idem[OF cs] by (simp add: current_cover_position_def)
  qed
qed

theorem current_cover_position_cases_witness:
  "fst (current_state (example_ctrl\<lparr>garage_state := example_state 3\<rparr>)) = Inr (JStr ''Opening'') \<and>
   fst (current_cover_position (example_ctrl\<lparr>garage_state := example_state 3\<rparr>)) = Inr (JInt 42)"
proof -
  let ?s = "example_ctrl\<lparr>garage_state := example_state 3\<rparr>"
  have f: "fst (current_state ?s) = Inr (JStr ''Opening'')"
    by (simp add: current_state_def example_ctrl_def example_state_def door_enum_def
          seq_index_def norm_index_def)
  show ?thesis
    using f current_cover_position_cases[of ?s]
    by (simp add: example_state_def)
qed

text \<open>The claim as the specification states it fails: with the value 5 the derived state
  is neither \<^verbatim>\<open>Closed\<close> nor \<^verbatim>\<open>Open\<close>, the device has reported the position 42, and
  reading the cover position raises.\<close>

theorem current_cover_position_counterexample:
  "fst (current_cover_position (example_ctrl\<lparr>garage_state := example_state 5\<rparr>))
     = Inl IndexError \<and>
   py_getpath (example_state 5) [JStr ''doorPosition'', JStr ''value''] = Inr (JInt 42)"
  by (simp add: current_cover_position_def current_state_def example_ctrl_def
        example_state_def door_enum_def seq_index_def norm_index_def)

end
